theory Spec2Isabelle
  imports Main "HOL-Library.Word" "HOL-Library.AList"
begin

section \<open>Go values\<close>

text \<open>
  A Go \<open>string\<close> is a sequence of bytes: \<^typ>\<open>string\<close>. A \<open>[]byte\<close> is a list of
  8-bit words; \<open>uint32\<close> and \<open>int32\<close> are 32-bit words, the latter read with
  \<^const>\<open>sint\<close>. Go's \<open>int\<close> and \<open>int64\<close> results of \<open>strconv\<close> are integers
  that the parser keeps in range; every conversion to a narrower type is written out.
\<close>

type_synonym byte = "8 word"
type_synonym uint32 = "32 word"
type_synonym int32 = "32 word"

text \<open>Run-time panics of the Go runtime that the code can reach.\<close>

datatype panic = IndexOutOfRange | SliceBoundsOutOfRange

text \<open>The two error values of \<open>strconv\<close>.\<close>

datatype strconv_err = ErrSyntax | ErrRange

text \<open>
  Every error the file returns, one constructor for each place that builds one.
  \<open>InvalidKind\<close>: \<open>fmt.Errorf("invalid kind, %s", kind)\<close>;
  \<open>PidsFailed\<close>: \<open>fmt.Errorf("cound not get pid(s), %d", pid)\<close>;
  \<open>NoPort\<close>: \<open>fmt.Errorf("does not contain port, %s", src)\<close>;
  \<open>InvalidPort\<close>: \<open>fmt.Errorf("invalid port, %s", src)\<close>;
  \<open>DecodeError\<close>: \<open>fmt.Errorf("decode error, %s", err)\<close>;
  \<open>InvalidIPv6\<close>: \<open>fmt.Errorf("invalid IPv6 string")\<close>;
  \<open>ExpectedColon\<close> and \<open>ColumnCount\<close>: the two \<open>errors.New\<close> of NetProtoCounters;
  \<open>NumError\<close>: an error of \<open>strconv\<close> passed on unchanged;
  \<open>IOError\<close>: an error of \<open>common.ReadLines\<close> passed on unchanged;
  \<open>Panic\<close>: the goroutine panics.
\<close>

datatype error =
    InvalidKind string
  | PidsFailed int32
  | NoPort string
  | InvalidPort string
  | DecodeError
  | InvalidIPv6
  | ExpectedColon
  | ColumnCount
  | NumError strconv_err
  | IOError
  | Panic panic

text \<open>The classes of errors the specification speaks of.\<close>

fun MalformedInput :: "error \<Rightarrow> bool" where
  "MalformedInput (NoPort s) = True"
| "MalformedInput (InvalidPort s) = True"
| "MalformedInput DecodeError = True"
| "MalformedInput InvalidIPv6 = True"
| "MalformedInput e = False"

fun FormatError :: "error \<Rightarrow> bool" where
  "FormatError ExpectedColon = True"
| "FormatError ColumnCount = True"
| "FormatError e = False"

fun InvalidArgument :: "error \<Rightarrow> bool" where
  "InvalidArgument (InvalidKind k) = True"
| "InvalidArgument e = False"

section \<open>The Go standard library, as far as the file calls it\<close>

text \<open>
  The functions of \<open>strconv\<close>, \<open>strings\<close>, \<open>encoding/hex\<close> and \<open>net\<close> below follow the
  library of Go 1.13 and later, where a literal of base 0 may hold underscores
  between its digits; on a string without underscore the earlier releases agree.
\<close>

subsection \<open>strconv\<close>

text \<open>
  The digit value of a byte in \<open>strconv.ParseUint\<close>: \<open>0-9\<close>, then letters of either case
  from 10 on.
\<close>

definition digitVal :: "char \<Rightarrow> nat option" where
  "digitVal c =
     (let d = (of_char c :: nat) in
      if 48 \<le> d \<and> d \<le> 57 then Some (d - 48)
      else if 97 \<le> d \<and> d \<le> 122 then Some (d - 97 + 10)
      else if 65 \<le> d \<and> d \<le> 90 then Some (d - 65 + 10)
      else None)"

text \<open>
  The digit loop of \<open>ParseUint\<close> on a \<open>uint64\<close> accumulator \<open>n\<close>, with the wrap-around
  of \<open>n * base\<close> and \<open>n + d\<close> written out. \<open>base0\<close> says that the base was given as 0,
  where an underscore is skipped and remembered.
\<close>

fun parseDigits :: "bool \<Rightarrow> nat \<Rightarrow> nat \<Rightarrow> string \<Rightarrow> bool \<Rightarrow> nat \<Rightarrow> strconv_err + (nat \<times> bool)" where
  "parseDigits base0 base maxVal [] underscores n = Inr (n, underscores)"
| "parseDigits base0 base maxVal (c # cs) underscores n =
     (if c = CHR ''_'' \<and> base0 then parseDigits base0 base maxVal cs True n
      else case digitVal c of
        None \<Rightarrow> Inl ErrSyntax
      | Some d \<Rightarrow>
          if d \<ge> base then Inl ErrSyntax
          else if n \<ge> (2 ^ 64 - 1) div base + 1 then Inl ErrRange
          else
            let m = (n * base) mod 2 ^ 64;
                n1 = (m + d) mod 2 ^ 64
            in if n1 < m \<or> n1 > maxVal then Inl ErrRange
               else parseDigits base0 base maxVal cs underscores n1)"

text \<open>
  \<open>underscoreOK\<close>: underscores must separate digits, or follow the base prefix.
  The state \<open>i\<close> is the kind of the previous byte: \<open>0\<close> for a digit or the prefix,
  \<open>_\<close> for an underscore, \<open>!\<close> for anything else, \<open>^\<close> at the start.
\<close>

fun underscoreScan :: "bool \<Rightarrow> char \<Rightarrow> string \<Rightarrow> bool" where
  "underscoreScan hex i [] = (i \<noteq> CHR ''_'')"
| "underscoreScan hex i (c # cs) =
     (let d = (of_char c :: nat) in
      if (48 \<le> d \<and> d \<le> 57) \<or> (hex \<and> ((97 \<le> d \<and> d \<le> 102) \<or> (65 \<le> d \<and> d \<le> 70)))
      then underscoreScan hex (CHR ''0'') cs
      else if c = CHR ''_'' then (if i \<noteq> CHR ''0'' then False else underscoreScan hex (CHR ''_'') cs)
      else if i = CHR ''_'' then False
      else underscoreScan hex (CHR ''!'') cs)"

text \<open>An ASCII capital letter becomes its small letter; other bytes stay.\<close>

definition lowerByte :: "char \<Rightarrow> char" where
  "lowerByte c =
     (case map_of (zip ''ABCDEFGHIJKLMNOPQRSTUVWXYZ'' ''abcdefghijklmnopqrstuvwxyz'') c of
        Some l \<Rightarrow> l
      | None \<Rightarrow> c)"

definition underscoreOK :: "string \<Rightarrow> bool" where
  "underscoreOK s =
     (let s1 = (if s \<noteq> [] \<and> (hd s = CHR ''-'' \<or> hd s = CHR ''+'') then tl s else s) in
      if length s1 \<ge> 2 \<and> hd s1 = CHR ''0'' \<and> lowerByte (s1 ! 1) \<in> {CHR ''b'', CHR ''o'', CHR ''x''}
      then underscoreScan (lowerByte (s1 ! 1) = CHR ''x'') (CHR ''0'') (drop 2 s1)
      else underscoreScan False (CHR ''^'') s1)"

text \<open>
  \<open>strconv.ParseUint(s, base, bitSize)\<close> for \<open>base\<close> 0 or 2..36 and \<open>bitSize\<close> 1..64,
  the only ones the file passes. With base 0 the prefix of \<open>s\<close> chooses the base.
\<close>

definition ParseUint :: "string \<Rightarrow> nat \<Rightarrow> nat \<Rightarrow> strconv_err + nat" where
  "ParseUint s base bitSize =
     (if s = [] then Inl ErrSyntax
      else
        let base0 = (base = 0);
            (b, digits) =
              (if \<not> base0 then (base, s)
               else if hd s = CHR ''0'' then
                 (if length s \<ge> 3 \<and> lowerByte (s ! 1) = CHR ''b'' then (2, drop 2 s)
                  else if length s \<ge> 3 \<and> lowerByte (s ! 1) = CHR ''o'' then (8, drop 2 s)
                  else if length s \<ge> 3 \<and> lowerByte (s ! 1) = CHR ''x'' then (16, drop 2 s)
                  else (8, drop 1 s))
               else (10, s))
        in case parseDigits base0 b (2 ^ bitSize - 1) digits False 0 of
             Inl e \<Rightarrow> Inl e
           | Inr (n, underscores) \<Rightarrow>
               if underscores \<and> \<not> underscoreOK s then Inl ErrSyntax else Inr n)"

text \<open>
  \<open>strconv.ParseInt(s, base, bitSize)\<close>: an optional sign, the digits parsed as an
  unsigned value, then the range check for \<open>bitSize\<close>. A range error of
  \<open>ParseUint\<close> leaves \<open>un\<close> at the largest unsigned value, which the check refuses.
\<close>

definition ParseInt :: "string \<Rightarrow> nat \<Rightarrow> nat \<Rightarrow> strconv_err + int" where
  "ParseInt s base bitSize =
     (if s = [] then Inl ErrSyntax
      else
        let neg = (hd s = CHR ''-'');
            s1 = (if hd s = CHR ''+'' \<or> hd s = CHR ''-'' then tl s else s);
            cutoff = (2 :: nat) ^ (bitSize - 1)
        in case ParseUint s1 base bitSize of
             Inl ErrSyntax \<Rightarrow> Inl ErrSyntax
           | r \<Rightarrow>
               let un = (case r of Inr n \<Rightarrow> n | Inl e \<Rightarrow> 2 ^ bitSize - 1) in
               if \<not> neg \<and> un \<ge> cutoff then Inl ErrRange
               else if neg \<and> un > cutoff then Inl ErrRange
               else Inr (if neg then - int un else int un))"

text \<open>\<open>strconv.Atoi(s)\<close> is \<open>ParseInt(s, 10, 0)\<close>, where \<open>int\<close> has 64 bits.\<close>

definition Atoi :: "string \<Rightarrow> strconv_err + int" where
  "Atoi s = ParseInt s 10 64"

subsection \<open>strings\<close>

text \<open>
  \<open>strings.Split(s, sep)\<close> for a separator of one byte: the parts of \<open>s\<close> between
  the separators, at least one.
\<close>

fun Split :: "string \<Rightarrow> char \<Rightarrow> string list" where
  "Split [] sep = [[]]"
| "Split (c # cs) sep =
     (if c = sep then [] # Split cs sep
      else case Split cs sep of
             [] \<Rightarrow> [[c]]
           | x # xs \<Rightarrow> (c # x) # xs)"

text \<open>\<open>strings.IndexRune(s, r)\<close> for an ASCII rune: the index of its first byte.\<close>

fun IndexRune :: "string \<Rightarrow> char \<Rightarrow> nat option" where
  "IndexRune [] r = None"
| "IndexRune (c # cs) r =
     (if c = r then Some 0 else map_option Suc (IndexRune cs r))"

text \<open>\<open>strings.HasPrefix\<close> and \<open>strings.HasSuffix\<close>.\<close>

definition HasPrefix :: "string \<Rightarrow> string \<Rightarrow> bool" where
  "HasPrefix s p = (length s \<ge> length p \<and> take (length p) s = p)"

definition HasSuffix :: "string \<Rightarrow> string \<Rightarrow> bool" where
  "HasSuffix s p = (length s \<ge> length p \<and> drop (length s - length p) s = p)"

text \<open>
  \<open>unicode.IsSpace\<close> on the UTF-8 bytes at the head of a string: the number of bytes
  of the white-space rune that starts there, 0 when none does. The runes are
  U+0009..U+000D, U+0020, U+0085, U+00A0, U+1680, U+2000..U+200A, U+2028, U+2029,
  U+202F, U+205F and U+3000. No encoding of one of them starts inside the encoding
  of another rune, so a scan by bytes meets the same separators as a scan by runes.
\<close>

definition spaceWidth :: "string \<Rightarrow> nat" where
  "spaceWidth s =
     (case map of_char s :: nat list of
        [] \<Rightarrow> 0
      | a # r \<Rightarrow>
          if a = 32 \<or> (9 \<le> a \<and> a \<le> 13) then 1
          else (case r of
            [] \<Rightarrow> 0
          | b # r' \<Rightarrow>
              if a = 194 \<and> (b = 133 \<or> b = 160) then 2
              else (case r' of
                [] \<Rightarrow> 0
              | c # r'' \<Rightarrow>
                  if a = 225 \<and> b = 154 \<and> c = 128 then 3
                  else if a = 226 \<and> b = 128 \<and> ((128 \<le> c \<and> c \<le> 138) \<or> c = 168 \<or> c = 169 \<or> c = 175) then 3
                  else if a = 226 \<and> b = 129 \<and> c = 159 then 3
                  else if a = 227 \<and> b = 128 \<and> c = 128 then 3
                  else 0)))"

text \<open>
  \<open>strings.Fields(s)\<close>: the maximal runs of bytes between white space. \<open>skip\<close> counts
  the bytes of a separator still to drop, \<open>cur\<close> is the field being read, reversed.
\<close>

fun fieldsFrom :: "nat \<Rightarrow> string \<Rightarrow> string \<Rightarrow> string list" where
  "fieldsFrom skip cur [] = (if cur = [] then [] else [rev cur])"
| "fieldsFrom skip cur (c # cs) =
     (if skip > 0 then fieldsFrom (skip - 1) cur cs
      else
        let w = spaceWidth (c # cs) in
        if w = 0 then fieldsFrom 0 (c # cur) cs
        else (if cur = [] then [] else [rev cur]) @ fieldsFrom (w - 1) [] cs)"

definition Fields :: "string \<Rightarrow> string list" where
  "Fields s = fieldsFrom 0 [] s"

subsection \<open>encoding/hex\<close>

definition fromHexChar :: "char \<Rightarrow> byte option" where
  "fromHexChar c =
     (let d = (of_char c :: nat) in
      if 48 \<le> d \<and> d \<le> 57 then Some (of_nat (d - 48))
      else if 97 \<le> d \<and> d \<le> 102 then Some (of_nat (d - 97 + 10))
      else if 65 \<le> d \<and> d \<le> 70 then Some (of_nat (d - 65 + 10))
      else None)"

text \<open>
  \<open>hex.DecodeString(s)\<close>: two hexadecimal digits for each byte; \<open>None\<close> for a byte
  that is no digit and for an odd length (the callers only test the error against nil).
\<close>

fun DecodeString :: "string \<Rightarrow> byte list option" where
  "DecodeString [] = Some []"
| "DecodeString [p] = None"
| "DecodeString (p # q # rest) =
     (case fromHexChar p of
        None \<Rightarrow> None
      | Some a \<Rightarrow>
          (case fromHexChar q of
             None \<Rightarrow> None
           | Some b \<Rightarrow> map_option ((#) (a * 16 + b)) (DecodeString rest)))"

subsection \<open>net.IP\<close>

text \<open>\<open>uitoa\<close>: an unsigned number in decimal.\<close>

fun uitoa :: "nat \<Rightarrow> string" where
  "uitoa n = (if n < 10 then [''0123456789'' ! n] else uitoa (n div 10) @ [''0123456789'' ! (n mod 10)])"

declare uitoa.simps [simp del]

definition hexDigit :: "nat \<Rightarrow> char" where
  "hexDigit v = ''0123456789abcdef'' ! v"

text \<open>\<open>appendHex\<close>: a number in lower-case hexadecimal with no leading zero.\<close>

fun hexDigits :: "nat \<Rightarrow> string" where
  "hexDigits n = (if n = 0 then [] else hexDigits (n div 16) @ [hexDigit (n mod 16)])"

declare hexDigits.simps [simp del]

definition appendHex :: "string \<Rightarrow> nat \<Rightarrow> string" where
  "appendHex dst i = (if i = 0 then dst @ ''0'' else dst @ hexDigits i)"

text \<open>\<open>hexString\<close>: two lower-case digits for each byte.\<close>

definition hexString :: "byte list \<Rightarrow> string" where
  "hexString b = concat (map (\<lambda>x. [hexDigit (unat x div 16), hexDigit (unat x mod 16)]) b)"

text \<open>\<open>IP.To4\<close>: the four bytes of an IPv4 address, also of one mapped into IPv6.\<close>

definition To4 :: "byte list \<Rightarrow> byte list option" where
  "To4 ip =
     (if length ip = 4 then Some ip
      else if length ip = 16 \<and> list_all (\<lambda>x. x = 0) (take 10 ip) \<and> ip ! 10 = 255 \<and> ip ! 11 = 255
      then Some (drop 12 ip)
      else None)"

text \<open>The eight 16-bit groups of a 16-byte address, \<open>p[i]<<8 | p[i+1]\<close>.\<close>

fun groups :: "byte list \<Rightarrow> nat list" where
  "groups (hi # lo # rest) = (unat hi * 256 + unat lo) # groups rest"
| "groups rest = []"

text \<open>
  The longest run of zero groups: \<open>zeroEnd\<close> is the inner loop, which runs \<open>j\<close> over
  the zero groups from \<open>i\<close> on; \<open>longestZeros\<close> is the outer one, which keeps the first
  run that is strictly longer than the best so far and goes on behind it.
\<close>

function zeroEnd :: "nat list \<Rightarrow> nat \<Rightarrow> nat" where
  "zeroEnd gs j = (if j < length gs \<and> gs ! j = 0 then zeroEnd gs (j + 1) else j)"
  by pat_completeness auto
termination
  by (relation "measure (\<lambda>(gs, j). length gs - j)") auto

declare zeroEnd.simps [simp del]

function longestZeros :: "nat list \<Rightarrow> nat \<Rightarrow> int \<times> int \<Rightarrow> int \<times> int" where
  "longestZeros gs i e =
     (if i < length gs then
        (let j = zeroEnd gs i in
         if j > i \<and> int j - int i > snd e - fst e
         then longestZeros gs (j + 1) (int i, int j)
         else longestZeros gs (i + 1) e)
      else e)"
  by pat_completeness auto
termination
  by (relation "measure (\<lambda>(gs, i, e). length gs - i)") auto

declare longestZeros.simps [simp del]

definition joinColon :: "nat list \<Rightarrow> string" where
  "joinColon gs = foldl (\<lambda>b (k, g). appendHex (if k > 0 then b @ '':'' else b) g) [] (zip [0 ..< length gs] gs)"

text \<open>
  The text of a 16-byte address as IPv6: the groups in hexadecimal between colons,
  with \<open>::\<close> for the longest run of at least two zero groups.
\<close>

definition string6 :: "byte list \<Rightarrow> string" where
  "string6 ip =
     (let gs = groups ip;
          (e0, e1) = longestZeros gs 0 (-1, -1)
      in if e1 - e0 \<le> 1 then joinColon gs
         else joinColon (take (nat e0) gs) @ ''::'' @ joinColon (drop (nat e1) gs))"

text \<open>
  \<open>IP.String\<close>: \<open><nil>\<close> for no bytes, dotted decimal for an IPv4 address, also for
  one mapped into IPv6, \<open>?\<close> and the bytes for a length that is neither 4 nor 16,
  and the IPv6 text otherwise.
\<close>

definition IP_String :: "byte list \<Rightarrow> string" where
  "IP_String ip =
     (if length ip = 0 then ''<nil>''
      else case To4 ip of
        Some p4 \<Rightarrow>
          uitoa (unat (p4 ! 0)) @ ''.'' @ uitoa (unat (p4 ! 1)) @ ''.'' @
          uitoa (unat (p4 ! 2)) @ ''.'' @ uitoa (unat (p4 ! 3))
      | None \<Rightarrow>
          if length ip \<noteq> 16 then ''?'' @ hexString ip
          else string6 ip)"

section \<open>net_linux.go\<close>

subsection \<open>Constants of package syscall on Linux\<close>

definition AF_UNIX :: uint32 where "AF_UNIX = 1"
definition AF_INET :: uint32 where "AF_INET = 2"
definition AF_INET6 :: uint32 where "AF_INET6 = 10"
definition SOCK_STREAM :: uint32 where "SOCK_STREAM = 1"
definition SOCK_DGRAM :: uint32 where "SOCK_DGRAM = 2"

subsection \<open>The address decoder\<close>

record Addr =
  IP :: string
  Port :: uint32

text \<open>
  \<open>Reverse\<close> swaps \<open>s[i]\<close> and \<open>s[j]\<close> in place while \<open>i < j\<close>, from \<open>i = 0\<close> and
  \<open>j = len(s) - 1\<close>, and returns the slice.
\<close>

function ReverseLoop :: "byte list \<Rightarrow> int \<Rightarrow> int \<Rightarrow> byte list" where
  "ReverseLoop s i j =
     (if i < j then ReverseLoop (s[nat i := s ! nat j, nat j := s ! nat i]) (i + 1) (j - 1)
      else s)"
  by pat_completeness auto
termination
  by (relation "measure (\<lambda>(s, i, j). nat (j - i))") auto

declare ReverseLoop.simps [simp del]

definition Reverse :: "byte list \<Rightarrow> byte list" where
  "Reverse s = ReverseLoop s 0 (int (length s) - 1)"

text \<open>
  \<open>parseIPv6HexString\<close>: 16 bytes, each group \<open>src[i : i+4]\<close> reversed and appended
  to \<open>buf\<close>. The reversal writes into \<open>src\<close>, which no later step reads again.
\<close>

function ipv6Loop :: "byte list \<Rightarrow> nat \<Rightarrow> byte list \<Rightarrow> byte list" where
  "ipv6Loop src i buf =
     (if i < length src then ipv6Loop src (i + 4) (buf @ Reverse (take 4 (drop i src)))
      else buf)"
  by pat_completeness auto
termination
  by (relation "measure (\<lambda>(src, i, buf). length src - i)") auto

declare ipv6Loop.simps [simp del]

definition parseIPv6HexString :: "byte list \<Rightarrow> error + byte list" where
  "parseIPv6HexString src =
     (if length src \<noteq> 16 then Inl InvalidIPv6 else Inr (ipv6Loop src 0 []))"

definition decodeAddress :: "uint32 \<Rightarrow> string \<Rightarrow> error + Addr" where
  "decodeAddress family src =
     (let t = Split src (CHR '':'') in
      if length t \<noteq> 2 then Inl (NoPort src)
      else
        let addr = t ! 0 in
        case ParseInt (''0x'' @ t ! 1) 0 64 of
          Inl e \<Rightarrow> Inl (InvalidPort src)
        | Inr port \<Rightarrow>
            (case DecodeString addr of
               None \<Rightarrow> Inl DecodeError
             | Some decoded \<Rightarrow>
                 if family = AF_INET
                 then Inr \<lparr>IP = IP_String (Reverse decoded), Port = word_of_int port\<rparr>
                 else (case parseIPv6HexString decoded of
                         Inl e \<Rightarrow> Inl e
                       | Inr ip \<Rightarrow> Inr \<lparr>IP = IP_String ip, Port = word_of_int port\<rparr>)))"

subsection \<open>The host: what the file reads from outside\<close>

text \<open>
  The helpers of package \<open>common\<close> and the calls into the operating system are not
  part of the file. They are the fields of a \<open>host\<close>; an error of one of them is
  \<open>None\<close>.
  \<open>HostProc\<close>: \<open>common.HostProc(combineWith...)\<close>, the path of procfs and of a file in it;
  \<open>ReadLines\<close>: \<open>common.ReadLines(filename)\<close>;
  \<open>PathExists\<close>: \<open>common.PathExists(filename)\<close>;
  \<open>ReadDir\<close>: the names of the entries of \<open>ioutil.ReadDir(dir)\<close>, in its order;
  \<open>Readlink\<close>: \<open>os.Readlink(name)\<close>;
  \<open>Readdirnames\<close>: \<open>os.Open(dir)\<close> and then \<open>Readdirnames(-1)\<close>;
  \<open>MapToLower\<close>: \<open>strings.ToLower\<close> on a string with a byte outside ASCII, which
  follows the tables of package \<open>unicode\<close>.
\<close>

record host =
  HostProc :: "string list \<Rightarrow> string"
  ReadLines :: "string \<Rightarrow> string list option"
  PathExists :: "string \<Rightarrow> bool"
  ReadDir :: "string \<Rightarrow> string list option"
  Readlink :: "string \<Rightarrow> string option"
  Readdirnames :: "string \<Rightarrow> string list option"
  MapToLower :: "string \<Rightarrow> string"

text \<open>\<open>strings.ToLower\<close>: byte by byte on an ASCII string.\<close>

definition ToLower :: "host \<Rightarrow> string \<Rightarrow> string" where
  "ToLower h s =
     (if list_all (\<lambda>c. (of_char c :: nat) < 128) s then map lowerByte s else MapToLower h s)"

text \<open>The verb \<open>%d\<close> of \<open>fmt.Sprintf\<close> on a signed number.\<close>

definition Itoa :: "int \<Rightarrow> string" where
  "Itoa n = (if n < 0 then ''-'' @ uitoa (nat (- n)) else uitoa (nat n))"

subsection \<open>Tables\<close>

definition netProtocols :: "string list" where
  "netProtocols = [''ip'', ''icmp'', ''icmpmsg'', ''tcp'', ''udp'', ''udplite'']"

definition TCPStatuses :: "(string \<times> string) list" where
  "TCPStatuses =
     [(''01'', ''ESTABLISHED''), (''02'', ''SYN_SENT''), (''03'', ''SYN_RECV''),
      (''04'', ''FIN_WAIT1''), (''05'', ''FIN_WAIT2''), (''06'', ''TIME_WAIT''),
      (''07'', ''CLOSE''), (''08'', ''CLOSE_WAIT''), (''09'', ''LAST_ACK''),
      (''0A'', ''LISTEN''), (''0B'', ''CLOSING'')]"

record netConnectionKindType =
  family :: uint32
  sockType :: uint32
  filename :: string

definition kindTCP4 :: netConnectionKindType where
  "kindTCP4 = \<lparr>family = AF_INET, sockType = SOCK_STREAM, filename = ''tcp''\<rparr>"
definition kindTCP6 :: netConnectionKindType where
  "kindTCP6 = \<lparr>family = AF_INET6, sockType = SOCK_STREAM, filename = ''tcp6''\<rparr>"
definition kindUDP4 :: netConnectionKindType where
  "kindUDP4 = \<lparr>family = AF_INET, sockType = SOCK_DGRAM, filename = ''udp''\<rparr>"
definition kindUDP6 :: netConnectionKindType where
  "kindUDP6 = \<lparr>family = AF_INET6, sockType = SOCK_DGRAM, filename = ''udp6''\<rparr>"
definition kindUNIX :: netConnectionKindType where
  "kindUNIX = \<lparr>family = AF_UNIX, sockType = 0, filename = ''unix''\<rparr>"

definition netConnectionKindMap :: "(string \<times> netConnectionKindType list) list" where
  "netConnectionKindMap =
     [(''all'', [kindTCP4, kindTCP6, kindUDP4, kindUDP6, kindUNIX]),
      (''tcp'', [kindTCP4, kindTCP6]),
      (''tcp4'', [kindTCP4]),
      (''tcp6'', [kindTCP6]),
      (''udp'', [kindUDP4, kindUDP6]),
      (''udp4'', [kindUDP4]),
      (''udp6'', [kindUDP6]),
      (''unix'', [kindUNIX]),
      (''inet'', [kindTCP4, kindTCP6, kindUDP4, kindUDP6]),
      (''inet4'', [kindTCP4, kindUDP4]),
      (''inet6'', [kindTCP6, kindUDP6])]"

subsection \<open>Records\<close>

text \<open>
  The fields of \<open>inodeMap\<close> and \<open>connTmp\<close> carry the prefixes \<open>i_\<close> and \<open>c_\<close>, since the
  functions below name their variables \<open>pid\<close>, \<open>fd\<close>, \<open>status\<close> and \<open>path\<close>.
  \<open>NetConnectionStat\<close> and \<open>NetProtoCountersStat\<close> are declared in another file of
  the package; their fields are the ones this file assigns.
  A Go map is an association list with one entry for each key: \<open>map_of\<close> reads it and
  \<open>AList.update\<close> writes it, and nothing here depends on the order of its entries.
\<close>

record inodeMap =
  i_pid :: int32
  i_fd :: uint32

type_synonym inodes = "(string \<times> inodeMap list) list"

record connTmp =
  c_fd :: uint32
  c_family :: uint32
  c_sockType :: uint32
  c_laddr :: Addr
  c_raddr :: Addr
  c_status :: string
  c_pid :: int32
  c_boundPid :: int32
  c_path :: string

record NetConnectionStat =
  Fd :: uint32
  Family :: uint32
  Type :: uint32
  Laddr :: Addr
  Raddr :: Addr
  Status :: string
  Pid :: int32

record NetProtoCountersStat =
  Protocol :: string
  Stats :: "(string \<times> int) list"

subsection \<open>The index of socket inodes\<close>

text \<open>
  The loop of \<open>getProcInodes\<close> over the entries of the directory \<open>fd\<close> of a process.
  \<open>inode[8 : l-1]\<close> panics on the link \<open>socket:[\<close> itself, where \<open>l - 1 < 8\<close>.
\<close>

fun inodesLoop :: "host \<Rightarrow> string \<Rightarrow> int32 \<Rightarrow> string list \<Rightarrow> inodes \<Rightarrow> error + inodes" where
  "inodesLoop h root pid [] ret = Inr ret"
| "inodesLoop h root pid (name # files) ret =
     (let inodePath = root @ ''/'' @ Itoa (sint pid) @ ''/fd/'' @ name in
      case Readlink h inodePath of
        None \<Rightarrow> inodesLoop h root pid files ret
      | Some inode \<Rightarrow>
          if \<not> HasPrefix inode ''socket:['' then inodesLoop h root pid files ret
          else
            let l = length inode in
            if l - 1 < 8 then Inl (Panic SliceBoundsOutOfRange)
            else
              let inode' = take (l - 1 - 8) (drop 8 inode);
                  ret' = (case map_of ret inode' of
                            None \<Rightarrow> AList.update inode' [] ret
                          | Some a \<Rightarrow> ret)
              in case Atoi name of
                   Inl e \<Rightarrow> inodesLoop h root pid files ret'
                 | Inr fd \<Rightarrow>
                     let i = \<lparr>i_pid = pid, i_fd = word_of_int fd\<rparr> in
                     inodesLoop h root pid files
                       (AList.update inode' (the (map_of ret' inode') @ [i]) ret'))"

definition getProcInodes :: "host \<Rightarrow> string \<Rightarrow> int32 \<Rightarrow> error + inodes" where
  "getProcInodes h root pid =
     (let dir = root @ ''/'' @ Itoa (sint pid) @ ''/fd'' in
      case ReadDir h dir of
        None \<Rightarrow> Inr []
      | Some files \<Rightarrow> inodesLoop h root pid files [])"

fun pidsLoop :: "string list \<Rightarrow> int32 list \<Rightarrow> int32 list" where
  "pidsLoop [] ret = ret"
| "pidsLoop (fname # fnames) ret =
     (case ParseInt fname 10 32 of
        Inl e \<Rightarrow> pidsLoop fnames ret
      | Inr pid \<Rightarrow> pidsLoop fnames (ret @ [word_of_int pid]))"

definition Pids :: "host \<Rightarrow> error + int32 list" where
  "Pids h =
     (case Readdirnames h (HostProc h []) of
        None \<Rightarrow> Inl IOError
      | Some fnames \<Rightarrow> Inr (pidsLoop fnames []))"

fun updateMap :: "inodes \<Rightarrow> inodes \<Rightarrow> inodes" where
  "updateMap src [] = src"
| "updateMap src ((key, val) # add) =
     (case map_of src key of
        None \<Rightarrow> updateMap (AList.update key val src) add
      | Some a \<Rightarrow> updateMap (AList.update key (a @ val) src) add)"

fun inodesAllLoop :: "host \<Rightarrow> string \<Rightarrow> int32 list \<Rightarrow> inodes \<Rightarrow> error + inodes" where
  "inodesAllLoop h root [] ret = Inr ret"
| "inodesAllLoop h root (pid # pids) ret =
     (case getProcInodes h root pid of
        Inl e \<Rightarrow> Inl e
      | Inr t \<Rightarrow>
          if length t = 0 then inodesAllLoop h root pids ret
          else inodesAllLoop h root pids (updateMap ret t))"

definition getProcInodesAll :: "host \<Rightarrow> string \<Rightarrow> error + inodes" where
  "getProcInodesAll h root =
     (case Pids h of
        Inl e \<Rightarrow> Inl e
      | Inr pids \<Rightarrow> inodesAllLoop h root pids [])"

subsection \<open>The parsers of the socket tables\<close>

text \<open>
  The body of the loop of \<open>processInet\<close> for one line. \<open>i[0]\<close> panics when the index
  holds the inode with an empty list of owners. A key \<open>TCPStatuses\<close> does not hold
  gives the empty string.
\<close>

fun inetLoop :: "netConnectionKindType \<Rightarrow> inodes \<Rightarrow> int32 \<Rightarrow> string list \<Rightarrow> connTmp list \<Rightarrow> error + connTmp list" where
  "inetLoop kind inodes filterPid [] ret = Inr ret"
| "inetLoop kind inodes filterPid (line # lines) ret =
     (let l = Fields line in
      if length l < 10 then inetLoop kind inodes filterPid lines ret
      else
        let laddr = l ! 1;
            raddr = l ! 2;
            status = l ! 3;
            inode = l ! 9
        in case (case map_of inodes inode of
                   None \<Rightarrow> Inr (0, 0)
                 | Some i \<Rightarrow> (case i of [] \<Rightarrow> Inl (Panic IndexOutOfRange)
                                         | x # xs \<Rightarrow> Inr (i_pid x, i_fd x))) of
             Inl e \<Rightarrow> Inl e
           | Inr (pid, fd) \<Rightarrow>
               if sint filterPid > 0 \<and> filterPid \<noteq> pid then inetLoop kind inodes filterPid lines ret
               else
                 let status' = (if sockType kind = SOCK_STREAM
                                then (case map_of TCPStatuses status of Some v \<Rightarrow> v | None \<Rightarrow> [])
                                else ''NONE'')
                 in case decodeAddress (family kind) laddr of
                      Inl e \<Rightarrow> inetLoop kind inodes filterPid lines ret
                    | Inr la \<Rightarrow>
                        (case decodeAddress (family kind) raddr of
                           Inl e \<Rightarrow> inetLoop kind inodes filterPid lines ret
                         | Inr ra \<Rightarrow>
                             inetLoop kind inodes filterPid lines
                               (ret @ [\<lparr>c_fd = fd, c_family = family kind, c_sockType = sockType kind,
                                        c_laddr = la, c_raddr = ra, c_status = status',
                                        c_pid = pid, c_boundPid = 0, c_path = []\<rparr>])))"

text \<open>\<open>lines[1:]\<close> panics when the file has no line.\<close>

definition processInet :: "host \<Rightarrow> string \<Rightarrow> netConnectionKindType \<Rightarrow> inodes \<Rightarrow> int32 \<Rightarrow> error + connTmp list" where
  "processInet h file kind inodes filterPid =
     (if HasSuffix file ''6'' \<and> \<not> PathExists h file then Inr []
      else case ReadLines h file of
        None \<Rightarrow> Inl IOError
      | Some lines \<Rightarrow>
          if length lines < 1 then Inl (Panic SliceBoundsOutOfRange)
          else inetLoop kind inodes filterPid (drop 1 lines) [])"

text \<open>The inner loop of \<open>processUnix\<close> over the owners of one socket.\<close>

fun unixPairs :: "netConnectionKindType \<Rightarrow> int32 \<Rightarrow> string list \<Rightarrow> int \<Rightarrow> inodeMap list \<Rightarrow> connTmp list \<Rightarrow> connTmp list" where
  "unixPairs kind filterPid tokens st [] ret = ret"
| "unixPairs kind filterPid tokens st (pair # pairs) ret =
     (if sint filterPid > 0 \<and> filterPid \<noteq> i_pid pair then unixPairs kind filterPid tokens st pairs ret
      else
        let path = (if length tokens = 8 then tokens ! (length tokens - 1) else [])
        in unixPairs kind filterPid tokens st pairs
             (ret @ [\<lparr>c_fd = i_fd pair, c_family = family kind, c_sockType = word_of_int st,
                      c_laddr = \<lparr>IP = path, Port = 0\<rparr>, c_raddr = \<lparr>IP = [], Port = 0\<rparr>,
                      c_status = ''NONE'', c_pid = i_pid pair, c_boundPid = 0, c_path = path\<rparr>]))"

text \<open>
  The body of the loop of \<open>processUnix\<close> for one line. \<open>tokens[4]\<close> is in range behind
  the test \<open>len(tokens) < 6\<close>; \<open>tokens[6]\<close> panics on a line of exactly six fields.
\<close>

fun unixLoop :: "netConnectionKindType \<Rightarrow> inodes \<Rightarrow> int32 \<Rightarrow> string list \<Rightarrow> connTmp list \<Rightarrow> error + connTmp list" where
  "unixLoop kind inodes filterPid [] ret = Inr ret"
| "unixLoop kind inodes filterPid (line # lines) ret =
     (let tokens = Fields line in
      if length tokens < 6 then unixLoop kind inodes filterPid lines ret
      else case Atoi (tokens ! 4) of
        Inl e \<Rightarrow> Inl (NumError e)
      | Inr st \<Rightarrow>
          if length tokens \<le> 6 then Inl (Panic IndexOutOfRange)
          else
            let inode = tokens ! 6;
                pairs = (case map_of inodes inode of
                           None \<Rightarrow> [\<lparr>i_pid = 0, i_fd = 0\<rparr>]
                         | Some ps \<Rightarrow> ps)
            in unixLoop kind inodes filterPid lines (unixPairs kind filterPid tokens st pairs ret))"

definition processUnix :: "host \<Rightarrow> string \<Rightarrow> netConnectionKindType \<Rightarrow> inodes \<Rightarrow> int32 \<Rightarrow> error + connTmp list" where
  "processUnix h file kind inodes filterPid =
     (case ReadLines h file of
        None \<Rightarrow> Inl IOError
      | Some lines \<Rightarrow>
          if length lines < 1 then Inl (Panic SliceBoundsOutOfRange)
          else unixLoop kind inodes filterPid (drop 1 lines) [])"

subsection \<open>NetConnections\<close>

text \<open>
  The method \<open>String\<close> of \<open>NetConnectionStat\<close> is declared in another file of the
  package. The functions below take it as the argument \<open>String\<close>.

  \<open>connOf\<close> is the record the loop body builds from a row \<open>c\<close>, with the choice
  between \<open>c.pid\<close> and \<open>c.boundPid\<close>. \<open>connLoop\<close> is the inner loop of
  \<open>NetConnectionsPid\<close> over the records of one table; \<open>dupCheckMap\<close> is the list of
  its keys.
\<close>

definition connOf :: "connTmp \<Rightarrow> NetConnectionStat" where
  "connOf c =
     \<lparr>Fd = c_fd c, Family = c_family c, Type = c_sockType c, Laddr = c_laddr c,
      Raddr = c_raddr c, Status = c_status c,
      Pid = (if c_pid c = 0 then c_boundPid c else c_pid c)\<rparr>"

fun connLoop :: "(NetConnectionStat \<Rightarrow> string) \<Rightarrow> connTmp list \<Rightarrow> string list \<times> NetConnectionStat list \<Rightarrow> string list \<times> NetConnectionStat list" where
  "connLoop String [] (dupCheckMap, ret) = (dupCheckMap, ret)"
| "connLoop String (c # ls) (dupCheckMap, ret) =
     (let conn = connOf c;
          json = String conn
      in if json \<in> set dupCheckMap then connLoop String ls (dupCheckMap, ret)
         else connLoop String ls (json # dupCheckMap, ret @ [conn]))"

text \<open>
  The \<open>switch\<close> on \<open>t.family\<close>: the two INET families share a parser, and a family
  with no case leaves \<open>ls\<close> and \<open>err\<close> nil.
\<close>

definition processFamily :: "host \<Rightarrow> string \<Rightarrow> netConnectionKindType \<Rightarrow> inodes \<Rightarrow> int32 \<Rightarrow> error + connTmp list" where
  "processFamily h path t inodes pid =
     (if family t = AF_INET \<or> family t = AF_INET6 then processInet h path t inodes pid
      else if family t = AF_UNIX then processUnix h path t inodes pid
      else Inr [])"

text \<open>The outer loop over the tables of the kind.\<close>

fun kindLoop :: "(NetConnectionStat \<Rightarrow> string) \<Rightarrow> host \<Rightarrow> string \<Rightarrow> inodes \<Rightarrow> int32 \<Rightarrow> netConnectionKindType list \<Rightarrow> string list \<times> NetConnectionStat list \<Rightarrow> error + NetConnectionStat list" where
  "kindLoop String h root inodes pid [] (dupCheckMap, ret) = Inr ret"
| "kindLoop String h root inodes pid (t # tmap) (dupCheckMap, ret) =
     (let path = root @ ''/net/'' @ filename t in
      case processFamily h path t inodes pid of
        Inl e \<Rightarrow> Inl e
      | Inr ls \<Rightarrow> kindLoop String h root inodes pid tmap (connLoop String ls (dupCheckMap, ret)))"

definition NetConnectionsPid :: "(NetConnectionStat \<Rightarrow> string) \<Rightarrow> host \<Rightarrow> string \<Rightarrow> int32 \<Rightarrow> error + NetConnectionStat list" where
  "NetConnectionsPid String h kind pid =
     (case map_of netConnectionKindMap kind of
        None \<Rightarrow> Inl (InvalidKind kind)
      | Some tmap \<Rightarrow>
          let root = HostProc h [] in
          if pid = 0 then
            (case getProcInodesAll h root of
               Inl (Panic p) \<Rightarrow> Inl (Panic p)
             | Inl e \<Rightarrow> Inl (PidsFailed pid)
             | Inr inodes \<Rightarrow> kindLoop String h root inodes pid tmap ([], []))
          else
            (case getProcInodes h root pid of
               Inl e \<Rightarrow> Inl e
             | Inr inodes \<Rightarrow>
                 if length inodes = 0 then Inr []
                 else kindLoop String h root inodes pid tmap ([], [])))"

definition NetConnections :: "(NetConnectionStat \<Rightarrow> string) \<Rightarrow> host \<Rightarrow> string \<Rightarrow> error + NetConnectionStat list" where
  "NetConnections String h kind = NetConnectionsPid String h kind 0"

subsection \<open>NetProtoCounters\<close>

text \<open>The loop over the columns of one protocol.\<close>

fun statLoop :: "string list \<Rightarrow> string list \<Rightarrow> (string \<times> int) list \<Rightarrow> error + (string \<times> int) list" where
  "statLoop [] statValues stats = Inr stats"
| "statLoop (name # statNames) [] stats = Inl (Panic IndexOutOfRange)"
| "statLoop (name # statNames) (v # statValues) stats =
     (case ParseInt v 10 64 of
        Inl e \<Rightarrow> Inl (NumError e)
      | Inr val \<Rightarrow> statLoop statNames statValues (AList.update name val stats))"

text \<open>
  The loop over the lines, two at a time where the protocol is asked for or skipped.
  \<open>protos[proto]\<close> is true for the strings of \<open>protocols\<close>. \<open>line[r+2:]\<close> panics on a
  line shorter than \<open>r + 2\<close>, and \<open>lines[i]\<close> behind \<open>i++\<close> on a header that is the
  last line.
\<close>

fun protoLoop :: "host \<Rightarrow> string list \<Rightarrow> string list \<Rightarrow> NetProtoCountersStat list \<Rightarrow> error + NetProtoCountersStat list" where
  "protoLoop h protocols [] stats = Inr stats"
| "protoLoop h protocols (line # rest) stats =
     (case IndexRune line (CHR '':'') of
        None \<Rightarrow> Inl ExpectedColon
      | Some r \<Rightarrow>
          let proto = ToLower h (take r line) in
          if proto \<notin> set protocols then
            (case rest of [] \<Rightarrow> Inr stats | skipped # rest' \<Rightarrow> protoLoop h protocols rest' stats)
          else if length line < r + 2 then Inl (Panic SliceBoundsOutOfRange)
          else
            let statNames = Split (drop (r + 2) line) (CHR '' '') in
            case rest of
              [] \<Rightarrow> Inl (Panic IndexOutOfRange)
            | data # rest' \<Rightarrow>
                if length data < r + 2 then Inl (Panic SliceBoundsOutOfRange)
                else
                  let statValues = Split (drop (r + 2) data) (CHR '' '') in
                  if length statNames \<noteq> length statValues then Inl ColumnCount
                  else case statLoop statNames statValues [] of
                    Inl e \<Rightarrow> Inl e
                  | Inr m \<Rightarrow> protoLoop h protocols rest' (stats @ [\<lparr>Protocol = proto, Stats = m\<rparr>]))"

definition NetProtoCounters :: "host \<Rightarrow> string list \<Rightarrow> error + NetProtoCountersStat list" where
  "NetProtoCounters h protocols =
     (let protocols' = (if length protocols = 0 then netProtocols else protocols);
          filename = HostProc h [''net/snmp'']
      in case ReadLines h filename of
           None \<Rightarrow> Inl IOError
         | Some lines \<Rightarrow> protoLoop h protocols' lines [])"

subsection \<open>Example inputs\<close>

text \<open>
  A serialisation of all seven fields of a record, for running examples: the
  numbers in decimal, the fields between bars.
\<close>

definition fieldString :: "NetConnectionStat \<Rightarrow> string" where
  "fieldString n =
     uitoa (unat (Fd n)) @ ''|'' @ uitoa (unat (Family n)) @ ''|'' @ uitoa (unat (Type n)) @ ''|'' @
     IP (Laddr n) @ ''|'' @ uitoa (unat (Port (Laddr n))) @ ''|'' @
     IP (Raddr n) @ ''|'' @ uitoa (unat (Port (Raddr n))) @ ''|'' @
     Status n @ ''|'' @ Itoa (sint (Pid n))"

text \<open>
  A procfs under \<open>/proc\<close> with the files a function gives and nothing else:
  no directory can be read and no link resolved unless the arguments say so.
\<close>

definition procfs :: "(string \<Rightarrow> string list option) \<Rightarrow> (string \<Rightarrow> string list option) \<Rightarrow> (string \<Rightarrow> string option) \<Rightarrow> host" where
  "procfs files dirs links =
     \<lparr>HostProc = (\<lambda>sub. if sub = [] then ''/proc'' else ''/proc/'' @ hd sub),
      ReadLines = files,
      PathExists = (\<lambda>p. files p \<noteq> None),
      ReadDir = dirs,
      Readlink = links,
      Readdirnames = dirs,
      MapToLower = (\<lambda>s. s)\<rparr>"

text \<open>
  One process, listed under the names \<open>1\<close> and \<open>01\<close>, that holds the UNIX socket
  with inode 100 as descriptor 3.
\<close>

definition hostTwice :: host where
  "hostTwice =
     procfs
       (\<lambda>p. if p = ''/proc/net/unix''
             then Some [''Num       RefCount Protocol Flags    Type St Inode Path'',
                        ''0000000000000000: 00000002 00000000 00010000 0001 01 100 /run/x.sock'']
             else None)
       (\<lambda>p. if p = ''/proc'' then Some [''1'', ''01'', ''net'']
             else if p = ''/proc/1/fd'' then Some [''0'', ''3'']
             else None)
       (\<lambda>p. if p = ''/proc/1/fd/0'' then Some ''/dev/null''
             else if p = ''/proc/1/fd/3'' then Some ''socket:[100]''
             else None)"

text \<open>
  A table of UNIX sockets whose only row stops behind the column \<open>St\<close>: it has six
  fields.
\<close>

definition hostSixFields :: host where
  "hostSixFields =
     procfs
       (\<lambda>p. if p = ''/proc/net/unix''
             then Some [''Num       RefCount Protocol Flags    Type St Inode Path'',
                        ''0000000000000000: 00000002 00000000 00010000 0001 01'']
             else None)
       (\<lambda>p. if p = ''/proc'' then Some [] else None)
       (\<lambda>p. None)"

text \<open>
  A table of UNIX sockets whose second row has the type \<open>zz\<close>, between two rows
  that are as the kernel writes them.
\<close>

definition hostBadType :: host where
  "hostBadType =
     procfs
       (\<lambda>p. if p = ''/proc/net/unix''
             then Some [''Num       RefCount Protocol Flags    Type St Inode Path'',
                        ''0000000000000000: 00000002 00000000 00010000 0001 01 100 /run/x.sock'',
                        ''0000000000000000: 00000002 00000000 00010000 zz 01 101 /run/y.sock'',
                        ''0000000000000000: 00000002 00000000 00010000 0001 01 102 /run/z.sock'']
             else None)
       (\<lambda>p. if p = ''/proc'' then Some [] else None)
       (\<lambda>p. None)"

text \<open>
  A file \<open>net/snmp\<close> with the six pairs of lines, as the kernel writes them, two
  columns each.
\<close>

definition hostSnmp :: host where
  "hostSnmp =
     procfs
       (\<lambda>p. if p = ''/proc/net/snmp''
             then Some [''Ip: Forwarding DefaultTTL'', ''Ip: 1 64'',
                        ''Icmp: InMsgs InErrors'', ''Icmp: 10 0'',
                        ''IcmpMsg: InType3 OutType3'', ''IcmpMsg: 5 7'',
                        ''Tcp: RtoAlgorithm MaxConn'', ''Tcp: 1 -1'',
                        ''Udp: InDatagrams NoPorts'', ''Udp: 100 2'',
                        ''UdpLite: InDatagrams NoPorts'', ''UdpLite: 0 0'']
             else None)
       (\<lambda>p. None)
       (\<lambda>p. None)"

text \<open>
  A file \<open>net/snmp\<close> whose first pair has a value that is no number and whose
  second pair has two labels and one value.
\<close>

definition hostSnmpBad :: host where
  "hostSnmpBad =
     procfs
       (\<lambda>p. if p = ''/proc/net/snmp''
             then Some [''Ip: Forwarding DefaultTTL'', ''Ip: 1 x'',
                        ''Tcp: RtoAlgorithm MaxConn'', ''Tcp: 1'']
             else None)
       (\<lambda>p. None)
       (\<lambda>p. None)"

text \<open>A file \<open>net/snmp\<close> whose only pair has two labels and one value.\<close>

definition hostSnmpShort :: host where
  "hostSnmpShort =
     procfs
       (\<lambda>p. if p = ''/proc/net/snmp''
             then Some [''Ip: Forwarding DefaultTTL'', ''Ip: 1 64'',
                        ''Tcp: RtoAlgorithm MaxConn'', ''Tcp: 1'']
             else None)
       (\<lambda>p. None)
       (\<lambda>p. None)"

subsection \<open>Well-formed pairs of lines\<close>

text \<open>
  A header line and a value line are a well-formed pair when the header holds a
  colon, both lines reach two bytes behind it, the rest of both splits at the
  spaces into the same number of parts, and every part of the value line is a
  decimal number of 64 bits. \<open>pairProto\<close> is the name of the protocol of the pair,
  in small letters.
\<close>

definition wellFormedPair :: "string \<times> string \<Rightarrow> bool" where
  "wellFormedPair p =
     (case IndexRune (fst p) (CHR '':'') of
        None \<Rightarrow> False
      | Some r \<Rightarrow>
          r + 2 \<le> length (fst p) \<and> r + 2 \<le> length (snd p) \<and>
          length (Split (drop (r + 2) (fst p)) (CHR '' '')) =
            length (Split (drop (r + 2) (snd p)) (CHR '' '')) \<and>
          list_all (\<lambda>v. case ParseInt v 10 64 of Inl e \<Rightarrow> False | Inr n \<Rightarrow> True)
            (Split (drop (r + 2) (snd p)) (CHR '' '')))"

definition pairProto :: "host \<Rightarrow> string \<times> string \<Rightarrow> string" where
  "pairProto h p =
     (case IndexRune (fst p) (CHR '':'') of
        None \<Rightarrow> []
      | Some r \<Rightarrow> ToLower h (take r (fst p)))"

definition pairLines :: "(string \<times> string) list \<Rightarrow> string list" where
  "pairLines pairs = concat (map (\<lambda>p. [fst p, snd p]) pairs)"

text \<open>
  A table of TCP sockets whose first row has a local address without port, before
  a row that is as the kernel writes it.
\<close>

definition hostTcp :: host where
  "hostTcp =
     procfs
       (\<lambda>p. if p = ''/proc/net/tcp''
             then Some [''  sl  local_address rem_address   st tx_queue rx_queue tr tm->when retrnsmt   uid  timeout inode'',
                        ''   1: 0100007F 00000000:0000 0A 00000000:00000000 00:00000000 00000000     0        0 12346 1 0000000000000000 100 0 0 10 0'',
                        ''   0: 0100007F:0277 00000000:0000 0A 00000000:00000000 00:00000000 00000000     0        0 12345 1 0000000000000000 100 0 0 10 0'']
             else None)
       (\<lambda>p. if p = ''/proc'' then Some [] else None)
       (\<lambda>p. None)"

subsection \<open>Hexadecimal numerals\<close>

text \<open>
  What the claims call a base-16 unsigned integer: a string of the digits \<open>0-9\<close>,
  \<open>a-f\<close> and \<open>A-F\<close>, and its value, the first digit the most significant.
\<close>

definition isHexDigit :: "char \<Rightarrow> bool" where
  "isHexDigit c = (case digitVal c of Some d \<Rightarrow> d < 16 | None \<Rightarrow> False)"

definition base16 :: "string \<Rightarrow> nat" where
  "base16 s = foldl (\<lambda>n c. n * 16 + the (digitVal c)) 0 s"

section \<open>Evaluation of the examples\<close>

lemmas strconv_defs = ParseInt_def ParseUint_def digitVal_def Atoi_def

lemma Pids_hostTwice: "Pids hostTwice = Inr [1, 1]"
  by (simp add: Pids_def procfs_def hostTwice_def strconv_defs)

lemma Fields_unix_row:
  "Fields ''0000000000000000: 00000002 00000000 00010000 0001 01 100 /run/x.sock'' =
     [''0000000000000000:'', ''00000002'', ''00000000'', ''00010000'', ''0001'', ''01'', ''100'',
      ''/run/x.sock'']"
  by (simp add: Fields_def spaceWidth_def)

lemma getProcInodes_hostTwice:
  "getProcInodes hostTwice ''/proc'' 1 = Inr [(''100'', [\<lparr>i_pid = 1, i_fd = 3\<rparr>])]"
  by (simp add: getProcInodes_def procfs_def hostTwice_def strconv_defs Itoa_def uitoa.simps
      HasPrefix_def)

lemma getProcInodesAll_hostTwice:
  "getProcInodesAll hostTwice ''/proc'' =
     Inr [(''100'', [\<lparr>i_pid = 1, i_fd = 3\<rparr>, \<lparr>i_pid = 1, i_fd = 3\<rparr>])]"
  by (simp add: getProcInodesAll_def Pids_hostTwice getProcInodes_hostTwice)

lemma processUnix_hostTwice:
  "processUnix hostTwice ''/proc/net/unix'' kindUNIX
     [(''100'', [\<lparr>i_pid = 1, i_fd = 3\<rparr>, \<lparr>i_pid = 1, i_fd = 3\<rparr>])] 0 =
   Inr ([\<lparr>c_fd = 3, c_family = 1, c_sockType = 1, c_laddr = \<lparr>IP = ''/run/x.sock'', Port = 0\<rparr>,
      c_raddr = \<lparr>IP = [], Port = 0\<rparr>, c_status = ''NONE'', c_pid = 1, c_boundPid = 0,
      c_path = ''/run/x.sock''\<rparr>,
      \<lparr>c_fd = 3, c_family = 1, c_sockType = 1, c_laddr = \<lparr>IP = ''/run/x.sock'', Port = 0\<rparr>,
       c_raddr = \<lparr>IP = [], Port = 0\<rparr>, c_status = ''NONE'', c_pid = 1, c_boundPid = 0,
       c_path = ''/run/x.sock''\<rparr>])"
  by (simp add: processUnix_def procfs_def hostTwice_def Fields_unix_row strconv_defs kindUNIX_def
      AF_UNIX_def Let_def)

lemma NetConnections_hostTwice:
  "NetConnectionsPid fieldString hostTwice ''unix'' 0 =
     Inr [\<lparr>Fd = 3, Family = 1, Type = 1, Laddr = \<lparr>IP = ''/run/x.sock'', Port = 0\<rparr>,
           Raddr = \<lparr>IP = [], Port = 0\<rparr>, Status = ''NONE'', Pid = 1\<rparr>]"
proof -
  have root: "HostProc hostTwice [] = ''/proc''"
    by (simp add: procfs_def hostTwice_def)
  have tab: "map_of netConnectionKindMap ''unix'' = Some [kindUNIX]"
    by (simp add: netConnectionKindMap_def)
  have fam: "processFamily hostTwice ''/proc/net/unix'' kindUNIX
               [(''100'', [\<lparr>i_pid = 1, i_fd = 3\<rparr>, \<lparr>i_pid = 1, i_fd = 3\<rparr>])] 0 =
             processUnix hostTwice ''/proc/net/unix'' kindUNIX
               [(''100'', [\<lparr>i_pid = 1, i_fd = 3\<rparr>, \<lparr>i_pid = 1, i_fd = 3\<rparr>])] 0"
    by (simp add: processFamily_def kindUNIX_def AF_UNIX_def AF_INET_def AF_INET6_def)
  have name: "filename kindUNIX = ''unix''"
    by (simp add: kindUNIX_def)
  show ?thesis
    by (simp add: NetConnectionsPid_def tab root getProcInodesAll_hostTwice name fam
        processUnix_hostTwice connOf_def fieldString_def)
qed

section \<open>The result of NetConnectionsPid has no duplicates\<close>

text \<open>
  \<open>connLoop\<close> keeps \<open>dupCheckMap\<close> as the keys of \<open>ret\<close>, in reverse, and these keys
  distinct.
\<close>

lemma connLoop_inv:
  "rev dup = map String ret \<Longrightarrow> distinct dup \<Longrightarrow> connLoop String ls (dup, ret) = (dup', ret')
   \<Longrightarrow> rev dup' = map String ret' \<and> distinct dup'"
proof (induction ls arbitrary: dup ret)
  case Nil
  then show ?case by simp
next
  case (Cons c ls)
  show ?case
  proof (cases "String (connOf c) \<in> set dup")
    case True
    with Cons.prems have "connLoop String ls (dup, ret) = (dup', ret')" by (simp add: Let_def)
    with Cons.IH [OF Cons.prems(1,2)] show ?thesis by simp
  next
    case False
    with Cons.prems have step: "connLoop String ls (String (connOf c) # dup, ret @ [connOf c]) = (dup', ret')"
      by (simp add: Let_def)
    have "rev (String (connOf c) # dup) = map String (ret @ [connOf c])"
      using Cons.prems(1) by simp
    moreover have "distinct (String (connOf c) # dup)"
      using False Cons.prems(2) by simp
    ultimately show ?thesis using Cons.IH step by blast
  qed
qed

text \<open>Every row leaves its key in \<open>dupCheckMap\<close>.\<close>

lemma connLoop_keys:
  "connLoop String ls (dup, ret) = (dup', ret') \<Longrightarrow> set dup' = set dup \<union> String ` connOf ` set ls"
proof (induction ls arbitrary: dup ret)
  case Nil
  then show ?case by simp
next
  case (Cons c ls)
  show ?case
  proof (cases "String (connOf c) \<in> set dup")
    case True
    with Cons.prems have "connLoop String ls (dup, ret) = (dup', ret')" by (simp add: Let_def)
    from Cons.IH [OF this] True show ?thesis by auto
  next
    case False
    with Cons.prems have "connLoop String ls (String (connOf c) # dup, ret @ [connOf c]) = (dup', ret')"
      by (simp add: Let_def)
    from Cons.IH [OF this] show ?thesis by auto
  qed
qed

lemma kindLoop_distinct:
  "rev dup = map String ret \<Longrightarrow> distinct dup \<Longrightarrow>
   kindLoop String h root inodes pid tmap (dup, ret) = Inr out \<Longrightarrow> distinct (map String out)"
proof (induction tmap arbitrary: dup ret)
  case Nil
  then have "out = ret" by simp
  with Nil show ?case by (metis distinct_rev)
next
  case (Cons t tmap)
  let ?r = "processFamily h (root @ ''/net/'' @ filename t) t inodes pid"
  from Cons.prems(3) obtain ls where ls: "?r = Inr ls"
    by (cases ?r) (simp_all add: Let_def)
  obtain dup1 ret1 where st: "connLoop String ls (dup, ret) = (dup1, ret1)"
    by (cases "connLoop String ls (dup, ret)")
  from Cons.prems(3) ls st have "kindLoop String h root inodes pid tmap (dup1, ret1) = Inr out"
    by (simp add: Let_def)
  moreover from connLoop_inv [OF Cons.prems(1,2) st]
  have "rev dup1 = map String ret1" "distinct dup1" by simp_all
  ultimately show ?case using Cons.IH by blast
qed

lemma one_entry_for_key:
  "distinct (map f xs) \<Longrightarrow> k \<in> f ` set xs \<Longrightarrow> length (filter (\<lambda>x. f x = k) xs) = 1"
proof (induction xs)
  case Nil
  then show ?case by simp
next
  case (Cons x xs)
  show ?case
  proof (cases "f x = k")
    case True
    from Cons.prems(1) have "f x \<notin> f ` set xs" by simp
    with True have "\<forall>y \<in> set xs. f y \<noteq> k" by blast
    then have "filter (\<lambda>x. f x = k) xs = []" by (simp add: filter_empty_conv)
    with True show ?thesis by simp
  next
    case False
    with Cons show ?thesis by auto
  qed
qed

text \<open>
  Claim C1. Whatever the serialisation \<open>String\<close>, the kind and the pid, a list that
  \<open>NetConnectionsPid\<close> returns holds no record twice, and not even two records with
  the same key. In the loop that removes the duplicates, every row \<open>c\<close> of a table
  \<open>ls\<close> has exactly one entry with its key in the outcome, however many rows of
  \<open>ls\<close> build the same record.
\<close>

theorem NetConnectionsPid_no_duplicates:
  "(NetConnectionsPid String h kind pid = Inr ret \<longrightarrow> distinct ret \<and> distinct (map String ret)) \<and>
   (c \<in> set ls \<longrightarrow>
      length (filter (\<lambda>x. String x = String (connOf c)) (snd (connLoop String ls ([], [])))) = 1)"
proof (intro conjI impI)
  assume r: "NetConnectionsPid String h kind pid = Inr ret"
  have "distinct (map String ret)"
  proof (cases "map_of netConnectionKindMap kind")
    case None
    with r show ?thesis by (simp add: NetConnectionsPid_def)
  next
    case (Some tmap)
    show ?thesis
    proof (cases "pid = 0")
      case True
      with r Some obtain inodes where
        "kindLoop String h (HostProc h []) inodes pid tmap ([], []) = Inr ret"
        by (auto simp: NetConnectionsPid_def Let_def split: sum.splits error.splits)
      then show ?thesis using kindLoop_distinct [of "[]" String "[]"] by simp
    next
      case False
      with r Some obtain inodes where
        "ret = [] \<or> kindLoop String h (HostProc h []) inodes pid tmap ([], []) = Inr ret"
        by (auto simp: NetConnectionsPid_def Let_def split: sum.splits if_splits)
      then show ?thesis using kindLoop_distinct [of "[]" String "[]"] by auto
    qed
  qed
  then show "distinct (map String ret)" .
  then show "distinct ret" by (simp add: distinct_map)
next
  assume c: "c \<in> set ls"
  obtain dup' ret' where st: "connLoop String ls ([], []) = (dup', ret')"
    by (cases "connLoop String ls ([], [])")
  from connLoop_inv [OF _ _ st] have inv: "rev dup' = map String ret'" "distinct dup'" by simp_all
  from connLoop_keys [OF st] c have "String (connOf c) \<in> set dup'" by auto
  with inv have "String (connOf c) \<in> String ` set ret'"
    by (metis set_rev set_map)
  moreover from inv have "distinct (map String ret')" by (metis distinct_rev)
  ultimately show "length (filter (\<lambda>x. String x = String (connOf c)) (snd (connLoop String ls ([], [])))) = 1"
    using st one_entry_for_key [of String ret'] by simp
qed

text \<open>
  On \<open>hostTwice\<close> the index holds the owner (pid 1, fd 3) of inode 100 twice, the
  row of the table yields the same record twice, and the result holds it once.
\<close>

theorem NetConnectionsPid_no_duplicates_witness:
  "NetConnectionsPid fieldString hostTwice ''unix'' 0 =
     Inr [\<lparr>Fd = 3, Family = 1, Type = 1, Laddr = \<lparr>IP = ''/run/x.sock'', Port = 0\<rparr>,
           Raddr = \<lparr>IP = [], Port = 0\<rparr>, Status = ''NONE'', Pid = 1\<rparr>] \<and>
   distinct [\<lparr>Fd = 3, Family = 1, Type = 1, Laddr = \<lparr>IP = ''/run/x.sock'', Port = 0\<rparr>,
              Raddr = \<lparr>IP = [], Port = 0\<rparr>, Status = ''NONE'', Pid = (1 :: int32)\<rparr>] \<and>
   length (filter (\<lambda>x. fieldString x = fieldString (connOf
       \<lparr>c_fd = 3, c_family = 1, c_sockType = 1, c_laddr = \<lparr>IP = ''/run/x.sock'', Port = 0\<rparr>,
        c_raddr = \<lparr>IP = [], Port = 0\<rparr>, c_status = ''NONE'', c_pid = 1, c_boundPid = 0,
        c_path = ''/run/x.sock''\<rparr>))
     (snd (connLoop fieldString ([\<lparr>c_fd = 3, c_family = 1, c_sockType = 1, c_laddr = \<lparr>IP = ''/run/x.sock'', Port = 0\<rparr>,
        c_raddr = \<lparr>IP = [], Port = 0\<rparr>, c_status = ''NONE'', c_pid = 1, c_boundPid = 0,
        c_path = ''/run/x.sock''\<rparr>,
      \<lparr>c_fd = 3, c_family = 1, c_sockType = 1, c_laddr = \<lparr>IP = ''/run/x.sock'', Port = 0\<rparr>,
         c_raddr = \<lparr>IP = [], Port = 0\<rparr>, c_status = ''NONE'', c_pid = 1, c_boundPid = 0,
         c_path = ''/run/x.sock''\<rparr>]) ([], [])))) = 1"
  using NetConnections_hostTwice
    NetConnectionsPid_no_duplicates [of fieldString hostTwice "''unix''" 0
      "[\<lparr>Fd = 3, Family = 1, Type = 1, Laddr = \<lparr>IP = ''/run/x.sock'', Port = 0\<rparr>,
         Raddr = \<lparr>IP = [], Port = 0\<rparr>, Status = ''NONE'', Pid = 1\<rparr>]"
      "\<lparr>c_fd = 3, c_family = 1, c_sockType = 1, c_laddr = \<lparr>IP = ''/run/x.sock'', Port = 0\<rparr>,
        c_raddr = \<lparr>IP = [], Port = 0\<rparr>, c_status = ''NONE'', c_pid = 1, c_boundPid = 0,
        c_path = ''/run/x.sock''\<rparr>"
      "[\<lparr>c_fd = 3, c_family = 1, c_sockType = 1, c_laddr = \<lparr>IP = ''/run/x.sock'', Port = 0\<rparr>,
        c_raddr = \<lparr>IP = [], Port = 0\<rparr>, c_status = ''NONE'', c_pid = 1, c_boundPid = 0,
        c_path = ''/run/x.sock''\<rparr>,
      \<lparr>c_fd = 3, c_family = 1, c_sockType = 1, c_laddr = \<lparr>IP = ''/run/x.sock'', Port = 0\<rparr>,
         c_raddr = \<lparr>IP = [], Port = 0\<rparr>, c_status = ''NONE'', c_pid = 1, c_boundPid = 0,
         c_path = ''/run/x.sock''\<rparr>]"]
  by simp


section \<open>The kind is checked before anything is read\<close>

text \<open>No step behind the check of the kind returns the error of the check.\<close>

lemma inodesLoop_err: "inodesLoop h root pid files ret = Inl e \<Longrightarrow> e = Panic SliceBoundsOutOfRange"
proof (induction files arbitrary: ret)
  case Nil
  then show ?case by simp
next
  case (Cons name files)
  show ?case
  proof (cases "Readlink h (root @ ''/'' @ Itoa (sint pid) @ ''/fd/'' @ name)")
    case None
    with Cons show ?thesis by simp
  next
    case (Some inode)
    with Cons show ?thesis
      by (cases "Atoi name") (auto simp: Let_def split: if_splits)
  qed
qed

lemma getProcInodes_err: "getProcInodes h root pid = Inl e \<Longrightarrow> e = Panic SliceBoundsOutOfRange"
  by (auto simp: getProcInodes_def Let_def dest: inodesLoop_err split: option.splits)

lemma inetLoop_err: "inetLoop kind inodes filterPid lines ret = Inl e \<Longrightarrow> e = Panic IndexOutOfRange"
proof (induction lines arbitrary: ret)
  case Nil
  then show ?case by simp
next
  case (Cons line lines)
  show ?case
  proof (cases "length (Fields line) < 10")
    case True
    with Cons show ?thesis by simp
  next
    case False
    show ?thesis
    proof (cases "map_of inodes (Fields line ! 9)")
      case None
      with Cons False show ?thesis
        by (simp add: Let_def split: if_splits sum.splits)
    next
      case (Some i)
      with Cons False show ?thesis
        by (cases i) (auto simp: Let_def split: if_splits sum.splits)
    qed
  qed
qed

lemma unixLoop_err:
  "unixLoop kind inodes filterPid lines ret = Inl e \<Longrightarrow> e = Panic IndexOutOfRange \<or> (\<exists>n. e = NumError n)"
proof (induction lines arbitrary: ret)
  case Nil
  then show ?case by simp
next
  case (Cons line lines)
  show ?case
  proof (cases "length (Fields line) < 6")
    case True
    with Cons show ?thesis by simp
  next
    case False
    with Cons show ?thesis
      by (cases "Atoi (Fields line ! 4)") (auto simp: Let_def split: if_splits)
  qed
qed

lemma processFamily_err: "processFamily h file kind inodes filterPid = Inl e \<Longrightarrow> \<not> InvalidArgument e"
  by (auto simp: processFamily_def processInet_def processUnix_def
      dest!: inetLoop_err unixLoop_err split: option.splits if_splits)

lemma kindLoop_err: "kindLoop String h root inodes pid tmap st = Inl e \<Longrightarrow> \<not> InvalidArgument e"
proof (induction tmap arbitrary: st)
  case Nil
  then show ?case by (cases st) simp
next
  case (Cons t tmap)
  obtain dup ret where st: "st = (dup, ret)" by (cases st)
  show ?case
  proof (cases "processFamily h (root @ ''/net/'' @ filename t) t inodes pid")
    case (Inl e')
    with Cons.prems st have "e = e'" by (simp add: Let_def)
    with Inl processFamily_err show ?thesis by blast
  next
    case (Inr ls)
    with Cons.prems st have "kindLoop String h root inodes pid tmap (connLoop String ls (dup, ret)) = Inl e"
      by (simp add: Let_def)
    then show ?thesis by (rule Cons.IH)
  qed
qed

lemma inodesAllLoop_err: "inodesAllLoop h root pids ret = Inl e \<Longrightarrow> e = Panic SliceBoundsOutOfRange"
proof (induction pids arbitrary: ret)
  case Nil
  then show ?case by simp
next
  case (Cons pid pids)
  then show ?case
    by (cases "getProcInodes h root pid") (auto dest: getProcInodes_err split: if_splits)
qed

lemma NetConnectionsPid_err:
  assumes "map_of netConnectionKindMap kind = Some tmap"
    and "NetConnectionsPid String h kind pid = Inl e"
  shows "\<not> InvalidArgument e"
proof (cases "pid = 0")
  case True
  show ?thesis
  proof (cases "getProcInodesAll h (HostProc h [])")
    case (Inl e')
    with assms True show ?thesis
      by (cases e') (auto simp: NetConnectionsPid_def)
  next
    case (Inr inodes)
    with assms True show ?thesis
      by (auto simp: NetConnectionsPid_def dest: kindLoop_err)
  qed
next
  case False
  show ?thesis
  proof (cases "getProcInodes h (HostProc h []) pid")
    case (Inl e')
    with assms False getProcInodes_err [OF Inl] show ?thesis
      by (auto simp: NetConnectionsPid_def)
  next
    case (Inr inodes)
    with assms False show ?thesis
      by (auto simp: NetConnectionsPid_def dest: kindLoop_err split: if_splits)
  qed
qed

lemma kind_lookup:
  "map_of netConnectionKindMap kind \<noteq> None \<longleftrightarrow>
   kind \<in> set [''all'', ''tcp'', ''tcp4'', ''tcp6'', ''udp'', ''udp4'', ''udp6'', ''unix'', ''inet'',
               ''inet4'', ''inet6'']"
  by (simp add: netConnectionKindMap_def)

text \<open>
  Claim C4. For a kind outside the eleven names, \<open>NetConnectionsPid\<close> and
  \<open>NetConnections\<close> return the error of an invalid kind, whatever the host holds:
  the result does not depend on the host, so nothing of it was read. For a kind
  among the eleven names the lookup finds its tables, and no error that the call
  may still return is the error of an invalid argument.
\<close>

theorem kind_validation:
  "(kind \<notin> set [''all'', ''tcp'', ''tcp4'', ''tcp6'', ''udp'', ''udp4'', ''udp6'', ''unix'', ''inet'',
                  ''inet4'', ''inet6''] \<longrightarrow>
      NetConnectionsPid String h kind pid = Inl (InvalidKind kind) \<and>
      NetConnections String h kind = Inl (InvalidKind kind) \<and>
      InvalidArgument (InvalidKind kind)) \<and>
   (kind \<in> set [''all'', ''tcp'', ''tcp4'', ''tcp6'', ''udp'', ''udp4'', ''udp6'', ''unix'', ''inet'',
                  ''inet4'', ''inet6''] \<longrightarrow>
      (\<exists>tmap. map_of netConnectionKindMap kind = Some tmap) \<and>
      (\<forall>e. NetConnectionsPid String h kind pid = Inl e \<longrightarrow> \<not> InvalidArgument e) \<and>
      (\<forall>e. NetConnections String h kind = Inl e \<longrightarrow> \<not> InvalidArgument e))"
proof (intro conjI impI)
  assume "kind \<notin> set [''all'', ''tcp'', ''tcp4'', ''tcp6'', ''udp'', ''udp4'', ''udp6'', ''unix'',
                        ''inet'', ''inet4'', ''inet6'']"
  with kind_lookup have none: "map_of netConnectionKindMap kind = None" by blast
  then show "NetConnectionsPid String h kind pid = Inl (InvalidKind kind)"
    by (simp add: NetConnectionsPid_def)
  from none show "NetConnections String h kind = Inl (InvalidKind kind)"
    by (simp add: NetConnections_def NetConnectionsPid_def)
  show "InvalidArgument (InvalidKind kind)" by simp
next
  assume "kind \<in> set [''all'', ''tcp'', ''tcp4'', ''tcp6'', ''udp'', ''udp4'', ''udp6'', ''unix'',
                        ''inet'', ''inet4'', ''inet6'']"
  with kind_lookup obtain tmap where tmap: "map_of netConnectionKindMap kind = Some tmap"
    by blast
  then show "\<exists>tmap. map_of netConnectionKindMap kind = Some tmap" ..
  from tmap show "\<forall>e. NetConnectionsPid String h kind pid = Inl e \<longrightarrow> \<not> InvalidArgument e"
    by (blast dest: NetConnectionsPid_err)
  from tmap show "\<forall>e. NetConnections String h kind = Inl e \<longrightarrow> \<not> InvalidArgument e"
    unfolding NetConnections_def by (blast dest: NetConnectionsPid_err)
qed

text \<open>
  \<open>invalidkind\<close> is refused on \<open>hostTwice\<close>, where \<open>unix\<close> returns a record.
\<close>

theorem kind_validation_witness:
  "NetConnectionsPid fieldString hostTwice ''invalidkind'' 0 = Inl (InvalidKind ''invalidkind'') \<and>
   NetConnections fieldString hostTwice ''invalidkind'' = Inl (InvalidKind ''invalidkind'') \<and>
   (\<exists>tmap. map_of netConnectionKindMap ''unix'' = Some tmap) \<and>
   NetConnectionsPid fieldString hostTwice ''unix'' 0 =
     Inr [\<lparr>Fd = 3, Family = 1, Type = 1, Laddr = \<lparr>IP = ''/run/x.sock'', Port = 0\<rparr>,
           Raddr = \<lparr>IP = [], Port = 0\<rparr>, Status = ''NONE'', Pid = 1\<rparr>]"
  using kind_validation [of "''invalidkind''" fieldString hostTwice 0]
    kind_validation [of "''unix''" fieldString hostTwice 0] NetConnections_hostTwice
  by simp

section \<open>A process without sockets\<close>

text \<open>
  Claim C5. For a kind among the eleven names and a pid other than 0 (so for every
  pid above 0), when the index of the process is empty, \<open>NetConnectionsPid\<close>
  returns the empty list and no error, whatever the rest of the host holds.
  \<open>getProcInodes\<close> returns the empty index and no error when the directory \<open>fd\<close>
  of the process cannot be read, so the same holds for such a process.
\<close>

theorem no_sockets_no_connections:
  "(kind \<in> set [''all'', ''tcp'', ''tcp4'', ''tcp6'', ''udp'', ''udp4'', ''udp6'', ''unix'', ''inet'',
                  ''inet4'', ''inet6''] \<longrightarrow> pid \<noteq> 0 \<longrightarrow>
      getProcInodes h (HostProc h []) pid = Inr [] \<longrightarrow>
      NetConnectionsPid String h kind pid = Inr []) \<and>
   (ReadDir h (root @ ''/'' @ Itoa (sint pid) @ ''/fd'') = None \<longrightarrow>
      getProcInodes h root pid = Inr [])"
proof (intro conjI impI)
  assume "kind \<in> set [''all'', ''tcp'', ''tcp4'', ''tcp6'', ''udp'', ''udp4'', ''udp6'', ''unix'',
                        ''inet'', ''inet4'', ''inet6'']"
  with kind_lookup obtain tmap where "map_of netConnectionKindMap kind = Some tmap"
    by blast
  moreover assume "pid \<noteq> 0" and "getProcInodes h (HostProc h []) pid = Inr []"
  ultimately show "NetConnectionsPid String h kind pid = Inr []"
    by (simp add: NetConnectionsPid_def)
next
  assume "ReadDir h (root @ ''/'' @ Itoa (sint pid) @ ''/fd'') = None"
  then show "getProcInodes h root pid = Inr []"
    by (simp add: getProcInodes_def)
qed

text \<open>
  On \<open>hostTwice\<close> process 1 holds a socket and there is no process 7: the
  connections of pid 7 are none.
\<close>

theorem no_sockets_no_connections_witness:
  "ReadDir hostTwice (''/proc'' @ ''/'' @ Itoa (sint (7 :: int32)) @ ''/fd'') = None \<and>
   getProcInodes hostTwice ''/proc'' 7 = Inr [] \<and>
   NetConnectionsPid fieldString hostTwice ''all'' 7 = Inr []"
proof -
  have root: "HostProc hostTwice [] = ''/proc''"
    by (simp add: procfs_def hostTwice_def)
  have dir: "ReadDir hostTwice (''/proc'' @ ''/'' @ Itoa (sint (7 :: int32)) @ ''/fd'') = None"
    by (simp add: procfs_def hostTwice_def Itoa_def uitoa.simps)
  with no_sockets_no_connections [of "''all''" 7 hostTwice fieldString "''/proc''"] root
  show ?thesis by simp
qed


section \<open>Splitting and parsing a token\<close>

lemma Split_no_sep: "sep \<notin> set s \<Longrightarrow> Split s sep = [s]"
  by (induction s) auto

lemma Split_one_sep: "sep \<notin> set a \<Longrightarrow> sep \<notin> set b \<Longrightarrow> Split (a @ sep # b) sep = [a, b]"
  by (induction a) (auto simp: Split_no_sep)

lemma isHexDigit_digitVal: "isHexDigit c \<Longrightarrow> \<exists>d. digitVal c = Some d \<and> d < 16"
  by (auto simp: isHexDigit_def split: option.splits)

lemma isHexDigit_not_special: "isHexDigit c \<Longrightarrow> c \<noteq> CHR ''_'' \<and> c \<noteq> CHR '':''"
  by (auto simp: isHexDigit_def digitVal_def)

lemma hex_no_colon: "list_all isHexDigit s \<Longrightarrow> CHR '':'' \<notin> set s"
  by (induction s) (auto dest: isHexDigit_not_special)

lemma foldl_hex_mono: "m \<le> foldl (\<lambda>n c. n * 16 + the (digitVal c)) m cs"
proof (induction cs arbitrary: m)
  case Nil
  show ?case by simp
next
  case (Cons c cs)
  have "m \<le> m * 16 + the (digitVal c)" by simp
  also have "\<dots> \<le> foldl (\<lambda>n c. n * 16 + the (digitVal c)) (m * 16 + the (digitVal c)) cs"
    by (rule Cons.IH)
  finally show ?case by simp
qed

text \<open>
  The digit loop on hexadecimal digits: the value when it fits 64 bits, a range
  error when it does not.
\<close>

lemma parseDigits_hex:
  "list_all isHexDigit cs \<Longrightarrow> n < 2 ^ 64 \<Longrightarrow>
   parseDigits True 16 (2 ^ 64 - 1) cs us n =
     (if foldl (\<lambda>n c. n * 16 + the (digitVal c)) n cs < 2 ^ 64
      then Inr (foldl (\<lambda>n c. n * 16 + the (digitVal c)) n cs, us)
      else Inl ErrRange)"
proof (induction cs arbitrary: n)
  case Nil
  then show ?case by simp
next
  case (Cons c cs)
  from Cons.prems have "isHexDigit c" by simp
  then obtain d where d: "digitVal c = Some d" "d < 16" "c \<noteq> CHR ''_''"
    using isHexDigit_digitVal isHexDigit_not_special by blast
  let ?f = "\<lambda>n c. n * 16 + the (digitVal c)"
  show ?case
  proof (cases "n \<ge> 1152921504606846976")
    case True
    have "n * 16 + d \<le> foldl ?f (n * 16 + d) cs" by (rule foldl_hex_mono)
    with True have "\<not> foldl ?f (n * 16 + d) cs < 2 ^ 64" by simp
    with True d show ?thesis by simp
  next
    case False
    with d have small: "n * 16 + d < 2 ^ 64" by simp
    then have m: "n * 16 mod 18446744073709551616 = n * 16"
      and n1: "(n * 16 + d) mod 18446744073709551616 = n * 16 + d" by simp_all
    from Cons.prems have "list_all isHexDigit cs" by simp
    from Cons.IH [OF this small] False d small m n1 show ?thesis
      by (simp add: Let_def)
  qed
qed

lemma parseDigits_not_hex:
  "\<not> list_all isHexDigit cs \<Longrightarrow> CHR ''_'' \<notin> set cs \<Longrightarrow>
   \<exists>e. parseDigits True 16 mv cs us n = Inl e"
proof (induction cs arbitrary: n)
  case Nil
  then show ?case by simp
next
  case (Cons c cs)
  show ?case
  proof (cases "isHexDigit c")
    case True
    with Cons.prems have rest: "\<not> list_all isHexDigit cs" "CHR ''_'' \<notin> set cs" "c \<noteq> CHR ''_''"
      by auto
    from True obtain d where "digitVal c = Some d" "d < 16"
      using isHexDigit_digitVal by blast
    with Cons.IH [OF rest(1,2)] rest(3) show ?thesis
      by (auto simp: Let_def)
  next
    case False
    with Cons.prems show ?thesis
      by (auto simp: isHexDigit_def split: option.splits)
  qed
qed

lemma ParseUint_0x:
  "ParseUint (CHR ''0'' # CHR ''x'' # port) 0 64 =
     (if port = [] then Inl ErrSyntax
      else case parseDigits True 16 (2 ^ 64 - 1) port False 0 of
             Inl e \<Rightarrow> Inl e
           | Inr (n, underscores) \<Rightarrow>
               if underscores \<and> \<not> underscoreOK (CHR ''0'' # CHR ''x'' # port) then Inl ErrSyntax
               else Inr n)"
proof (cases "port = []")
  case True
  then show ?thesis
    by (simp add: ParseUint_def lowerByte_def digitVal_def)
next
  case False
  then have "length port \<ge> 1" by (cases port) simp_all
  with False show ?thesis
    by (simp add: ParseUint_def lowerByte_def del: parseDigits.simps)
qed

text \<open>
  The port of a token: \<open>0x\<close> and the right-hand part, read as a signed literal of
  64 bits.
\<close>

lemma ParseInt_0x_hex:
  assumes "list_all isHexDigit port"
  shows "ParseInt (''0x'' @ port) 0 64 =
     (if port = [] then Inl ErrSyntax
      else if base16 port < 2 ^ 63 then Inr (int (base16 port))
      else Inl ErrRange)"
proof (cases "port = []")
  case True
  then show ?thesis by (simp add: ParseInt_def ParseUint_0x)
next
  case False
  have pd: "parseDigits True 16 (2 ^ 64 - 1) port False 0 =
      (if base16 port < 2 ^ 64 then Inr (base16 port, False) else Inl ErrRange)"
    using parseDigits_hex [OF assms, of 0 False] by (simp add: base16_def)
  show ?thesis
  proof (cases "base16 port < 2 ^ 64")
    case True
    with False pd show ?thesis
      by (simp add: ParseInt_def ParseUint_0x)
  next
    case big: False
    with False pd show ?thesis
      by (simp add: ParseInt_def ParseUint_0x)
  qed
qed

lemma ParseInt_0x_not_hex:
  assumes "\<not> list_all isHexDigit port" and "CHR ''_'' \<notin> set port"
  shows "\<exists>e. ParseInt (''0x'' @ port) 0 64 = Inl e"
proof -
  from assms have ne: "port \<noteq> []" by auto
  from parseDigits_not_hex [OF assms] obtain e
    where "parseDigits True 16 (2 ^ 64 - 1) port False 0 = Inl e" by blast
  with ne have "ParseUint (''0x'' @ port) 0 64 = Inl e"
    by (simp add: ParseUint_0x)
  then show ?thesis
    by (cases e) (simp_all add: ParseInt_def)
qed

section \<open>The address decoder\<close>

lemma fromHexChar_colon: "fromHexChar c = Some v \<Longrightarrow> c \<noteq> CHR '':''"
  by (auto simp: fromHexChar_def)

lemma DecodeString_no_colon: "DecodeString s = Some bs \<Longrightarrow> CHR '':'' \<notin> set s"
proof (induction s arbitrary: bs rule: DecodeString.induct)
  case 1
  then show ?case by simp
next
  case (2 p)
  then show ?case by simp
next
  case (3 p q rest)
  from "3.prems" obtain a b bs' where
    "fromHexChar p = Some a" "fromHexChar q = Some b" "DecodeString rest = Some bs'"
    by (auto split: option.splits)
  moreover from this have "p \<noteq> CHR '':''" "q \<noteq> CHR '':''"
    by (blast dest: fromHexChar_colon)+
  ultimately show ?case using "3.IH" by auto
qed

lemma decodeAddress_parts:
  "Split tok (CHR '':'') = [addr, port] \<Longrightarrow>
   decodeAddress fam tok =
     (case ParseInt (''0x'' @ port) 0 64 of
        Inl e \<Rightarrow> Inl (InvalidPort tok)
      | Inr p \<Rightarrow>
          (case DecodeString addr of
             None \<Rightarrow> Inl DecodeError
           | Some decoded \<Rightarrow>
               if fam = AF_INET
               then Inr \<lparr>IP = IP_String (Reverse decoded), Port = word_of_int p\<rparr>
               else (case parseIPv6HexString decoded of
                       Inl e \<Rightarrow> Inl e
                     | Inr ip \<Rightarrow> Inr \<lparr>IP = IP_String ip, Port = word_of_int p\<rparr>)))"
  by (simp add: decodeAddress_def)

lemma Reverse_4: "Reverse [a, b, c, d] = [d, c, b, a]"
  by (simp add: Reverse_def ReverseLoop.simps)

lemma ipv6Loop_16:
  "ipv6Loop [b0, b1, b2, b3, b4, b5, b6, b7, b8, b9, b10, b11, b12, b13, b14, b15] 0 [] =
     [b3, b2, b1, b0, b7, b6, b5, b4, b11, b10, b9, b8, b15, b14, b13, b12]"
  by (simp add: ipv6Loop.simps Reverse_4)

lemma IP_String_4:
  "IP_String [a, b, c, d] =
     uitoa (unat a) @ ''.'' @ uitoa (unat b) @ ''.'' @ uitoa (unat c) @ ''.'' @ uitoa (unat d)"
  by (simp add: IP_String_def To4_def)

lemma DecodeString_0500000A: "DecodeString ''0500000A'' = Some [5, 0, 0, 10]"
  by (simp add: fromHexChar_def)

lemma hex_0016: "list_all isHexDigit ''0016'' \<and> base16 ''0016'' = 22"
  by (simp add: isHexDigit_def digitVal_def base16_def)

text \<open>
  Claim C2. A token whose left-hand part decodes to the four bytes \<open>a b c d\<close> and
  whose right-hand part is a hexadecimal numeral below \<open>2^32\<close> decodes, in the
  family INET, to the address \<open>d.c.b.a\<close> in decimal and to the port that is the
  value of the numeral. \<open>0500000A:0016\<close> is 10.0.0.5, port 22.
\<close>

theorem decodeAddress_inet:
  "(DecodeString addr = Some [a, b, c, d] \<longrightarrow> port \<noteq> [] \<longrightarrow> list_all isHexDigit port \<longrightarrow>
    base16 port < 2 ^ 32 \<longrightarrow>
      decodeAddress AF_INET (addr @ '':'' @ port) =
        Inr \<lparr>IP = uitoa (unat d) @ ''.'' @ uitoa (unat c) @ ''.'' @ uitoa (unat b) @ ''.'' @
                   uitoa (unat a),
             Port = of_nat (base16 port)\<rparr> \<and>
      unat (of_nat (base16 port) :: uint32) = base16 port) \<and>
   decodeAddress AF_INET ''0500000A:0016'' = Inr \<lparr>IP = ''10.0.0.5'', Port = 22\<rparr>"
proof -
  have general: "decodeAddress AF_INET (addr @ '':'' @ port) =
        Inr \<lparr>IP = uitoa (unat d) @ ''.'' @ uitoa (unat c) @ ''.'' @ uitoa (unat b) @ ''.'' @
                   uitoa (unat a),
             Port = of_nat (base16 port)\<rparr> \<and>
      unat (of_nat (base16 port) :: uint32) = base16 port"
    if dec: "DecodeString addr = Some [a, b, c, d]" and ne: "port \<noteq> []"
      and hex: "list_all isHexDigit port" and small: "base16 port < 2 ^ 32"
    for addr a b c d port
  proof -
    from dec have "CHR '':'' \<notin> set addr" by (rule DecodeString_no_colon)
    moreover from hex have "CHR '':'' \<notin> set port" by (rule hex_no_colon)
    ultimately have split: "Split (addr @ '':'' @ port) (CHR '':'') = [addr, port]"
      using Split_one_sep by simp
    from small have "base16 port < 2 ^ 63"
      by (rule less_le_trans) simp
    with ParseInt_0x_hex [OF hex] ne
    have p: "ParseInt (''0x'' @ port) 0 64 = Inr (int (base16 port))"
      by simp
    have "decodeAddress AF_INET (addr @ '':'' @ port) =
        Inr \<lparr>IP = IP_String (Reverse [a, b, c, d]), Port = word_of_int (int (base16 port))\<rparr>"
      using decodeAddress_parts [OF split, of AF_INET] p dec by simp
    moreover have "unat (of_nat (base16 port) :: uint32) = base16 port"
      using small by (simp add: unat_of_nat)
    ultimately show ?thesis
      by (simp add: Reverse_4 IP_String_4)
  qed
  from general [OF DecodeString_0500000A, of "''0016''"] hex_0016
  have "decodeAddress AF_INET ''0500000A:0016'' = Inr \<lparr>IP = ''10.0.0.5'', Port = 22\<rparr>"
    by (simp add: uitoa.simps)
  with general show ?thesis by simp
qed

theorem decodeAddress_inet_witness:
  "DecodeString ''0100007F'' = Some [1, 0, 0, 127] \<and> list_all isHexDigit ''1F90'' \<and>
   base16 ''1F90'' = 8080 \<and>
   decodeAddress AF_INET ''0100007F:1F90'' = Inr \<lparr>IP = ''127.0.0.1'', Port = 8080\<rparr>"
proof -
  have dec: "DecodeString ''0100007F'' = Some [1, 0, 0, 127]"
    by (simp add: fromHexChar_def)
  have hex: "list_all isHexDigit ''1F90''" and val: "base16 ''1F90'' = 8080"
    by (simp_all add: isHexDigit_def digitVal_def base16_def)
  from decodeAddress_inet [of "''0100007F''" 1 0 0 127 "''1F90''"] dec hex val
  show ?thesis by (simp add: uitoa.simps)
qed

lemma DecodeString_example6:
  "DecodeString ''0085002452100113070057A13F025401'' =
     Some [0, 133, 0, 36, 82, 16, 1, 19, 7, 0, 87, 161, 63, 2, 84, 1]"
  by (simp add: fromHexChar_def)

lemma DecodeString_mapped:
  "DecodeString ''0000000000000000FFFF00000100007F'' =
     Some [0, 0, 0, 0, 0, 0, 0, 0, 255, 255, 0, 0, 1, 0, 0, 127]"
  by (simp add: fromHexChar_def)

lemma hex_0035: "list_all isHexDigit ''0035'' \<and> base16 ''0035'' = 53"
  by (simp add: isHexDigit_def digitVal_def base16_def)

lemma string6_example:
  "string6 [36, 0, 133, 0, 19, 1, 16, 82, 161, 87, 0, 7, 1, 84, 2, 63] =
     ''2400:8500:1301:1052:a157:7:154:23f''"
  by (simp add: string6_def longestZeros.simps zeroEnd.simps joinColon_def appendHex_def
      hexDigits.simps hexDigit_def)

text \<open>A token with a hexadecimal port below \<open>2^63\<close>, in a family other than INET.\<close>

lemma decodeAddress_other_family:
  assumes dec: "DecodeString addr = Some decoded" and ne: "port \<noteq> []"
    and hex: "list_all isHexDigit port" and small: "base16 port < 2 ^ 63"
    and fam: "fam \<noteq> AF_INET"
  shows "decodeAddress fam (addr @ '':'' @ port) =
     (case parseIPv6HexString decoded of
        Inl e \<Rightarrow> Inl e
      | Inr ip \<Rightarrow> Inr \<lparr>IP = IP_String ip, Port = of_nat (base16 port)\<rparr>)"
proof -
  from dec have "CHR '':'' \<notin> set addr" by (rule DecodeString_no_colon)
  moreover from hex have "CHR '':'' \<notin> set port" by (rule hex_no_colon)
  ultimately have split: "Split (addr @ '':'' @ port) (CHR '':'') = [addr, port]"
    using Split_one_sep by simp
  from ParseInt_0x_hex [OF hex] ne small
  have p: "ParseInt (''0x'' @ port) 0 64 = Inr (int (base16 port))"
    by simp
  show ?thesis
    using decodeAddress_parts [OF split, of fam] p dec fam
    by (cases "parseIPv6HexString decoded") simp_all
qed

text \<open>
  Claim C3, as the code has it. A token whose left-hand part decodes to 16 bytes
  decodes, in the family INET6, to the text that \<open>IP.String\<close> gives for the bytes
  with each group of four reversed: the address in dotted decimal when these
  bytes are an IPv4 address mapped into IPv6 (ten zero bytes, then two bytes 255),
  and the IPv6 text otherwise. A left-hand part that decodes to another number of
  bytes fails with the error of an invalid IPv6 string.
  \<open>0085002452100113070057A13F025401:0035\<close> is 2400:8500:1301:1052:a157:7:154:23f,
  port 53.
\<close>

theorem decodeAddress_inet6:
  "(DecodeString addr = Some [b0, b1, b2, b3, b4, b5, b6, b7, b8, b9, b10, b11, b12, b13, b14, b15] \<longrightarrow>
    port \<noteq> [] \<longrightarrow> list_all isHexDigit port \<longrightarrow> base16 port < 2 ^ 63 \<longrightarrow>
      decodeAddress AF_INET6 (addr @ '':'' @ port) =
        Inr \<lparr>IP = IP_String [b3, b2, b1, b0, b7, b6, b5, b4, b11, b10, b9, b8, b15, b14, b13, b12],
             Port = of_nat (base16 port)\<rparr> \<and>
      IP_String [b3, b2, b1, b0, b7, b6, b5, b4, b11, b10, b9, b8, b15, b14, b13, b12] =
        (if list_all (\<lambda>x. x = 0) [b3, b2, b1, b0, b7, b6, b5, b4, b11, b10] \<and> b9 = 255 \<and> b8 = 255
         then uitoa (unat b15) @ ''.'' @ uitoa (unat b14) @ ''.'' @ uitoa (unat b13) @ ''.'' @
              uitoa (unat b12)
         else string6 [b3, b2, b1, b0, b7, b6, b5, b4, b11, b10, b9, b8, b15, b14, b13, b12])) \<and>
   (DecodeString addr = Some bs \<longrightarrow> length bs \<noteq> 16 \<longrightarrow>
    port \<noteq> [] \<longrightarrow> list_all isHexDigit port \<longrightarrow> base16 port < 2 ^ 63 \<longrightarrow>
      decodeAddress AF_INET6 (addr @ '':'' @ port) = Inl InvalidIPv6 \<and> MalformedInput InvalidIPv6) \<and>
   decodeAddress AF_INET6 ''0085002452100113070057A13F025401:0035'' =
     Inr \<lparr>IP = ''2400:8500:1301:1052:a157:7:154:23f'', Port = 53\<rparr>"
proof -
  have fam: "AF_INET6 \<noteq> AF_INET" by (simp add: AF_INET6_def AF_INET_def)
  have sixteen: "decodeAddress AF_INET6 (addr @ '':'' @ port) =
        Inr \<lparr>IP = IP_String [b3, b2, b1, b0, b7, b6, b5, b4, b11, b10, b9, b8, b15, b14, b13, b12],
             Port = of_nat (base16 port)\<rparr>"
    if "DecodeString addr = Some [b0, b1, b2, b3, b4, b5, b6, b7, b8, b9, b10, b11, b12, b13, b14, b15]"
      and "port \<noteq> []" and "list_all isHexDigit port" and "base16 port < 2 ^ 63"
    using decodeAddress_other_family [OF that fam]
    by (simp add: parseIPv6HexString_def ipv6Loop_16)
  have rendering: "IP_String [b3, b2, b1, b0, b7, b6, b5, b4, b11, b10, b9, b8, b15, b14, b13, b12] =
        (if list_all (\<lambda>x. x = 0) [b3, b2, b1, b0, b7, b6, b5, b4, b11, b10] \<and> b9 = 255 \<and> b8 = 255
         then uitoa (unat b15) @ ''.'' @ uitoa (unat b14) @ ''.'' @ uitoa (unat b13) @ ''.'' @
              uitoa (unat b12)
         else string6 [b3, b2, b1, b0, b7, b6, b5, b4, b11, b10, b9, b8, b15, b14, b13, b12])"
    by (simp add: IP_String_def To4_def)
  have other: "decodeAddress AF_INET6 (addr @ '':'' @ port) = Inl InvalidIPv6"
    if "DecodeString addr = Some bs" and len: "length bs \<noteq> 16"
      and "port \<noteq> []" and "list_all isHexDigit port" and "base16 port < 2 ^ 63"
    using decodeAddress_other_family [OF that(1) that(3-5) fam] len
    by (simp add: parseIPv6HexString_def)
  from decodeAddress_other_family [OF DecodeString_example6 _ _ _ fam, of "''0035''"] hex_0035
  have example: "decodeAddress AF_INET6 ''0085002452100113070057A13F025401:0035'' =
     Inr \<lparr>IP = ''2400:8500:1301:1052:a157:7:154:23f'', Port = 53\<rparr>"
    by (simp add: parseIPv6HexString_def ipv6Loop_16 IP_String_def To4_def string6_example)
  show ?thesis
  proof (intro conjI impI)
    assume "DecodeString addr = Some [b0, b1, b2, b3, b4, b5, b6, b7, b8, b9, b10, b11, b12, b13, b14, b15]"
      and "port \<noteq> []" and "list_all isHexDigit port" and "base16 port < 2 ^ 63"
    then show "decodeAddress AF_INET6 (addr @ '':'' @ port) =
        Inr \<lparr>IP = IP_String [b3, b2, b1, b0, b7, b6, b5, b4, b11, b10, b9, b8, b15, b14, b13, b12],
             Port = of_nat (base16 port)\<rparr>"
      by (rule sixteen)
  next
    show "IP_String [b3, b2, b1, b0, b7, b6, b5, b4, b11, b10, b9, b8, b15, b14, b13, b12] =
        (if list_all (\<lambda>x. x = 0) [b3, b2, b1, b0, b7, b6, b5, b4, b11, b10] \<and> b9 = 255 \<and> b8 = 255
         then uitoa (unat b15) @ ''.'' @ uitoa (unat b14) @ ''.'' @ uitoa (unat b13) @ ''.'' @
              uitoa (unat b12)
         else string6 [b3, b2, b1, b0, b7, b6, b5, b4, b11, b10, b9, b8, b15, b14, b13, b12])"
      by (rule rendering)
  next
    assume "DecodeString addr = Some bs" and "length bs \<noteq> 16"
      and "port \<noteq> []" and "list_all isHexDigit port" and "base16 port < 2 ^ 63"
    then show "decodeAddress AF_INET6 (addr @ '':'' @ port) = Inl InvalidIPv6"
      by (rule other)
  next
    show "MalformedInput InvalidIPv6" by simp
  next
    show "decodeAddress AF_INET6 ''0085002452100113070057A13F025401:0035'' =
     Inr \<lparr>IP = ''2400:8500:1301:1052:a157:7:154:23f'', Port = 53\<rparr>"
      by (rule example)
  qed
qed

text \<open>
  The example of the claim, an IPv4 address mapped into IPv6, and an address of
  four bytes in the family INET6.
\<close>

theorem decodeAddress_inet6_witness:
  "decodeAddress AF_INET6 ''0085002452100113070057A13F025401:0035'' =
     Inr \<lparr>IP = ''2400:8500:1301:1052:a157:7:154:23f'', Port = 53\<rparr> \<and>
   decodeAddress AF_INET6 ''0000000000000000FFFF00000100007F:0035'' =
     Inr \<lparr>IP = ''127.0.0.1'', Port = 53\<rparr> \<and>
   decodeAddress AF_INET6 ''0500000A:0035'' = Inl InvalidIPv6"
proof -
  note inst = decodeAddress_inet6
  from inst [of "''0000000000000000FFFF00000100007F''" 0 0 0 0 0 0 0 0 255 255 0 0 1 0 0 127 "''0035''"]
    DecodeString_mapped hex_0035
  have mapped: "decodeAddress AF_INET6 ''0000000000000000FFFF00000100007F:0035'' =
     Inr \<lparr>IP = ''127.0.0.1'', Port = 53\<rparr>"
    by (simp add: uitoa.simps)
  from inst [of "''0500000A''" _ _ _ _ _ _ _ _ _ _ _ _ _ _ _ _ "''0035''" "[5, 0, 0, 10]"]
    DecodeString_0500000A hex_0035
  have short: "decodeAddress AF_INET6 ''0500000A:0035'' = Inl InvalidIPv6"
    by simp
  from inst mapped short show ?thesis by simp
qed

text \<open>
  The text of an IPv4 address mapped into IPv6 holds no colon: it is no IPv6 text.
\<close>

theorem decodeAddress_inet6_counterexample:
  "decodeAddress AF_INET6 ''0000000000000000FFFF00000100007F:1F90'' =
     Inr \<lparr>IP = ''127.0.0.1'', Port = 8080\<rparr> \<and>
   CHR '':'' \<notin> set ''127.0.0.1''"
proof -
  have fam: "AF_INET6 \<noteq> AF_INET" by (simp add: AF_INET6_def AF_INET_def)
  have hex: "list_all isHexDigit ''1F90''" and val: "base16 ''1F90'' = 8080"
    by (simp_all add: isHexDigit_def digitVal_def base16_def)
  from decodeAddress_other_family [OF DecodeString_mapped _ hex _ fam] val
  show ?thesis
    by (simp add: parseIPv6HexString_def ipv6Loop_16 IP_String_def To4_def uitoa.simps)
qed

lemma length_2_list: "length t = 2 \<Longrightarrow> t = [t ! 0, t ! 1]"
  by (cases t; cases "tl t") auto

lemma DecodeString_0100007F: "DecodeString ''0100007F'' = Some [1, 0, 0, 127]"
  by (simp add: fromHexChar_def)

lemma hex_100000016: "list_all isHexDigit ''100000016'' \<and> base16 ''100000016'' = 4294967318"
  by (simp add: isHexDigit_def digitVal_def base16_def)

text \<open>
  Claim C9, as the code has it. A token that does not split at the colons into
  exactly two parts fails with the error of a missing port. Otherwise the port is
  \<open>0x\<close> and the right-hand part read by \<open>strconv.ParseInt\<close> as a signed literal of
  64 bits, and the decoder fails with the error of an invalid port exactly when
  this fails. For a right-hand part without underscore it succeeds exactly on the
  non-empty hexadecimal numerals below \<open>2^63\<close>. The decoder succeeds on no token
  but one of two parts with such a port, and the port it returns is the value
  converted to 32 bits: for a hexadecimal numeral, its value modulo \<open>2^32\<close>.
\<close>

theorem decodeAddress_port:
  "(length (Split tok (CHR '':'')) \<noteq> 2 \<longrightarrow>
      decodeAddress fam tok = Inl (NoPort tok) \<and> MalformedInput (NoPort tok)) \<and>
   (Split tok (CHR '':'') = [addr, port] \<longrightarrow>
      (decodeAddress fam tok = Inl (InvalidPort tok)) = (\<exists>e. ParseInt (''0x'' @ port) 0 64 = Inl e) \<and>
      MalformedInput (InvalidPort tok)) \<and>
   (CHR ''_'' \<notin> set port \<longrightarrow>
      (\<exists>p. ParseInt (''0x'' @ port) 0 64 = Inr p) =
      (port \<noteq> [] \<and> list_all isHexDigit port \<and> base16 port < 2 ^ 63)) \<and>
   (list_all isHexDigit port \<longrightarrow> port \<noteq> [] \<longrightarrow> base16 port < 2 ^ 63 \<longrightarrow>
      ParseInt (''0x'' @ port) 0 64 = Inr (int (base16 port))) \<and>
   (decodeAddress fam tok = Inr r \<longrightarrow>
      (\<exists>a b p. Split tok (CHR '':'') = [a, b] \<and> ParseInt (''0x'' @ b) 0 64 = Inr p \<and>
                Port r = word_of_int p)) \<and>
   (Split tok (CHR '':'') = [addr, port] \<longrightarrow> list_all isHexDigit port \<longrightarrow>
    decodeAddress fam tok = Inr r \<longrightarrow>
      unat (Port r) = base16 port mod 2 ^ 32)"
proof -
  have noport: "decodeAddress fam tok = Inl (NoPort tok)" if "length (Split tok (CHR '':'')) \<noteq> 2"
    using that by (simp add: decodeAddress_def)
  have invalid: "(decodeAddress fam tok = Inl (InvalidPort tok)) = (\<exists>e. ParseInt (''0x'' @ port) 0 64 = Inl e)"
    if split: "Split tok (CHR '':'') = [addr, port]"
  proof (cases "ParseInt (''0x'' @ port) 0 64")
    case (Inl e)
    with decodeAddress_parts [OF split, of fam] show ?thesis by simp
  next
    case (Inr p)
    with decodeAddress_parts [OF split, of fam] show ?thesis
      by (auto simp: parseIPv6HexString_def split: option.splits if_splits)
  qed
  have exactly: "(\<exists>p. ParseInt (''0x'' @ port) 0 64 = Inr p) =
      (port \<noteq> [] \<and> list_all isHexDigit port \<and> base16 port < 2 ^ 63)"
    if us: "CHR ''_'' \<notin> set port"
  proof (cases "list_all isHexDigit port")
    case True
    from ParseInt_0x_hex [OF True] True show ?thesis by auto
  next
    case False
    from ParseInt_0x_not_hex [OF False us] False show ?thesis by auto
  qed
  have val: "ParseInt (''0x'' @ port) 0 64 = Inr (int (base16 port))"
    if "list_all isHexDigit port" "port \<noteq> []" "base16 port < 2 ^ 63"
    using ParseInt_0x_hex [OF that(1)] that(2,3) by simp
  have success: "\<exists>a b p. Split tok (CHR '':'') = [a, b] \<and> ParseInt (''0x'' @ b) 0 64 = Inr p \<and>
                Port r = word_of_int p"
    if ok: "decodeAddress fam tok = Inr r"
  proof -
    let ?t = "Split tok (CHR '':'')"
    from ok have len: "length ?t = 2"
      by (simp add: decodeAddress_def Let_def split: if_splits)
    then have split: "?t = [?t ! 0, ?t ! 1]" by (rule length_2_list)
    from decodeAddress_parts [OF split, of fam] ok
    obtain p where "ParseInt (''0x'' @ ?t ! 1) 0 64 = Inr p" "Port r = word_of_int p"
      by (auto simp: parseIPv6HexString_def split: sum.splits option.splits if_splits)
    with split show ?thesis by blast
  qed
  have modulo: "unat (Port r) = base16 port mod 2 ^ 32"
    if split: "Split tok (CHR '':'') = [addr, port]" and hex: "list_all isHexDigit port"
      and ok: "decodeAddress fam tok = Inr r"
  proof -
    from success [OF ok] split obtain p where
      p: "ParseInt (''0x'' @ port) 0 64 = Inr p" "Port r = word_of_int p"
      by auto
    from p(1) ParseInt_0x_hex [OF hex] have "p = int (base16 port)"
      by (auto split: if_splits)
    with p(2) have "Port r = of_nat (base16 port)" by simp
    then show ?thesis by (simp add: unat_of_nat)
  qed
  show ?thesis
  proof (intro conjI impI)
    assume "length (Split tok (CHR '':'')) \<noteq> 2"
    then show "decodeAddress fam tok = Inl (NoPort tok)" by (rule noport)
  next
    show "MalformedInput (NoPort tok)" by simp
  next
    assume "Split tok (CHR '':'') = [addr, port]"
    then show "(decodeAddress fam tok = Inl (InvalidPort tok)) =
        (\<exists>e. ParseInt (''0x'' @ port) 0 64 = Inl e)"
      by (rule invalid)
  next
    show "MalformedInput (InvalidPort tok)" by simp
  next
    assume "CHR ''_'' \<notin> set port"
    then show "(\<exists>p. ParseInt (''0x'' @ port) 0 64 = Inr p) =
        (port \<noteq> [] \<and> list_all isHexDigit port \<and> base16 port < 2 ^ 63)"
      by (rule exactly)
  next
    assume "list_all isHexDigit port" "port \<noteq> []" "base16 port < 2 ^ 63"
    then show "ParseInt (''0x'' @ port) 0 64 = Inr (int (base16 port))" by (rule val)
  next
    assume "decodeAddress fam tok = Inr r"
    then show "\<exists>a b p. Split tok (CHR '':'') = [a, b] \<and> ParseInt (''0x'' @ b) 0 64 = Inr p \<and>
                Port r = word_of_int p"
      by (rule success)
  next
    assume "Split tok (CHR '':'') = [addr, port]" "list_all isHexDigit port"
      "decodeAddress fam tok = Inr r"
    then show "unat (Port r) = base16 port mod 2 ^ 32" by (rule modulo)
  qed
qed

lemma decodeAddress_big_port:
  "decodeAddress AF_INET ''0100007F:100000016'' = Inr \<lparr>IP = ''127.0.0.1'', Port = 22\<rparr>"
proof -
  have split: "Split ''0100007F:100000016'' (CHR '':'') = [''0100007F'', ''100000016'']"
    by simp
  from ParseInt_0x_hex [of "''100000016''"] hex_100000016
  have p: "ParseInt (''0x'' @ ''100000016'') 0 64 = Inr 4294967318"
    by simp
  have port: "(word_of_int 4294967318 :: uint32) = 22"
    by simp
  show ?thesis
    unfolding decodeAddress_parts [OF split, of AF_INET] p DecodeString_0100007F
    by (simp add: Reverse_4 IP_String_4 uitoa.simps)
qed

text \<open>
  \<open>0100007F:100000016\<close> has two parts and the port \<open>100000016\<close>, a hexadecimal
  numeral of value 4294967318; the decoder returns the port 22. A token of one
  part and a port that is no numeral fail.
\<close>

theorem decodeAddress_port_witness:
  "Split ''0100007F:100000016'' (CHR '':'') = [''0100007F'', ''100000016''] \<and>
   list_all isHexDigit ''100000016'' \<and> base16 ''100000016'' = 4294967318 \<and>
   ParseInt (''0x'' @ ''100000016'') 0 64 = Inr 4294967318 \<and>
   decodeAddress AF_INET ''0100007F:100000016'' = Inr \<lparr>IP = ''127.0.0.1'', Port = 22\<rparr> \<and>
   unat (Port \<lparr>IP = ''127.0.0.1'', Port = 22\<rparr>) = base16 ''100000016'' mod 2 ^ 32 \<and>
   decodeAddress AF_INET ''0100007F'' = Inl (NoPort ''0100007F'') \<and>
   decodeAddress AF_INET ''0100007F:x'' = Inl (InvalidPort ''0100007F:x'')"
proof -
  note big = decodeAddress_port [of "''0100007F:100000016''" AF_INET "''0100007F''" "''100000016''"
      "\<lparr>IP = ''127.0.0.1'', Port = 22\<rparr>"]
  have split: "Split ''0100007F:100000016'' (CHR '':'') = [''0100007F'', ''100000016'']"
    by simp
  have ne: "''100000016'' \<noteq> []" and small: "base16 ''100000016'' < 2 ^ 63"
    using hex_100000016 by simp_all
  from hex_100000016 have hex: "list_all isHexDigit ''100000016''" ..
  have p: "ParseInt (''0x'' @ ''100000016'') 0 64 = Inr (int (base16 ''100000016''))"
    using big [THEN conjunct2, THEN conjunct2, THEN conjunct2, THEN conjunct1] hex ne small
    by blast
  have m: "unat (Port \<lparr>IP = ''127.0.0.1'', Port = (22 :: uint32)\<rparr>) = base16 ''100000016'' mod 2 ^ 32"
    using big [THEN conjunct2, THEN conjunct2, THEN conjunct2, THEN conjunct2, THEN conjunct2]
      split hex decodeAddress_big_port
    by blast
  have "length (Split ''0100007F'' (CHR '':'')) \<noteq> 2" by simp
  with decodeAddress_port [of "''0100007F''" AF_INET, THEN conjunct1]
  have one: "decodeAddress AF_INET ''0100007F'' = Inl (NoPort ''0100007F'')"
    by blast
  have "Split ''0100007F:x'' (CHR '':'') = [''0100007F'', ''x'']" by simp
  moreover have "ParseInt (''0x'' @ ''x'') 0 64 = Inl ErrSyntax"
    by (simp add: ParseInt_def ParseUint_0x digitVal_def)
  ultimately have bad: "decodeAddress AF_INET ''0100007F:x'' = Inl (InvalidPort ''0100007F:x'')"
    using decodeAddress_port [of "''0100007F:x''" AF_INET "''0100007F''" "''x''",
        THEN conjunct2, THEN conjunct1]
    by blast
  from hex_100000016 have v: "base16 ''100000016'' = 4294967318" ..
  from p v have p': "ParseInt (''0x'' @ ''100000016'') 0 64 = Inr 4294967318" by simp
  show ?thesis
    using split hex v p' decodeAddress_big_port m one bad by blast
qed

text \<open>
  The port that the decoder returns for \<open>0100007F:100000016\<close> is not the value of
  the numeral \<open>100000016\<close>.
\<close>

theorem decodeAddress_port_counterexample:
  "decodeAddress AF_INET ''0100007F:100000016'' = Inr \<lparr>IP = ''127.0.0.1'', Port = 22\<rparr> \<and>
   list_all isHexDigit ''100000016'' \<and> base16 ''100000016'' = 4294967318 \<and>
   unat (22 :: uint32) \<noteq> 4294967318"
  using decodeAddress_big_port hex_100000016 by simp


section \<open>The table of UNIX sockets\<close>

text \<open>What the loop of \<open>processUnix\<close> does with a line, by the number of its fields.\<close>

lemma unixLoop_short:
  "length (Fields line) < 6 \<Longrightarrow>
   unixLoop kind inodes filterPid (line # lines) ret = unixLoop kind inodes filterPid lines ret"
  by simp

lemma unixLoop_bad_type:
  "length (Fields line) \<ge> 6 \<Longrightarrow> Atoi (Fields line ! 4) = Inl e \<Longrightarrow>
   unixLoop kind inodes filterPid (line # lines) ret = Inl (NumError e)"
  by simp

lemma unixLoop_six:
  "length (Fields line) = 6 \<Longrightarrow> Atoi (Fields line ! 4) = Inr st \<Longrightarrow>
   unixLoop kind inodes filterPid (line # lines) ret = Inl (Panic IndexOutOfRange)"
  by simp

lemma unixLoop_row:
  "length (Fields line) > 6 \<Longrightarrow> Atoi (Fields line ! 4) = Inr st \<Longrightarrow>
   unixLoop kind inodes filterPid (line # lines) ret =
     unixLoop kind inodes filterPid lines
       (unixPairs kind filterPid (Fields line) st
          (case map_of inodes (Fields line ! 6) of
             None \<Rightarrow> [\<lparr>i_pid = 0, i_fd = 0\<rparr>]
           | Some ps \<Rightarrow> ps) ret)"
  by (simp add: Let_def)

lemma Fields_six:
  "Fields ''0000000000000000: 00000002 00000000 00010000 0001 01'' =
     [''0000000000000000:'', ''00000002'', ''00000000'', ''00010000'', ''0001'', ''01'']"
  by (simp add: Fields_def spaceWidth_def)

lemma Atoi_0001: "Atoi ''0001'' = Inr 1"
  by (simp add: strconv_defs)

text \<open>
  Claim C6 at a line of six fields. The line passes the test \<open>len(tokens) < 6\<close>,
  its field 4 is the number 1, and the read of \<open>tokens[6]\<close> is out of range: the
  parser panics, and with it \<open>NetConnections\<close>.
\<close>

theorem processUnix_six_fields:
  "length (Fields ''0000000000000000: 00000002 00000000 00010000 0001 01'') = 6 \<and>
   processUnix hostSixFields ''/proc/net/unix'' kindUNIX [] 0 = Inl (Panic IndexOutOfRange) \<and>
   NetConnections fieldString hostSixFields ''unix'' = Inl (Panic IndexOutOfRange)"
proof -
  have six: "length (Fields ''0000000000000000: 00000002 00000000 00010000 0001 01'') = 6"
    by (simp add: Fields_six)
  have "Atoi (Fields ''0000000000000000: 00000002 00000000 00010000 0001 01'' ! 4) = Inr 1"
    by (simp add: Fields_six Atoi_0001)
  from unixLoop_six [OF six this]
  have unix: "processUnix hostSixFields ''/proc/net/unix'' kindUNIX [] 0 = Inl (Panic IndexOutOfRange)"
    by (simp add: processUnix_def hostSixFields_def procfs_def)
  have "getProcInodesAll hostSixFields ''/proc'' = Inr []"
    by (simp add: getProcInodesAll_def Pids_def hostSixFields_def procfs_def)
  moreover have "HostProc hostSixFields [] = ''/proc''"
    by (simp add: hostSixFields_def procfs_def)
  moreover have "map_of netConnectionKindMap ''unix'' = Some [kindUNIX]"
    by (simp add: netConnectionKindMap_def)
  moreover have "processFamily hostSixFields ''/proc/net/unix'' kindUNIX [] 0 =
      processUnix hostSixFields ''/proc/net/unix'' kindUNIX [] 0"
    by (simp add: processFamily_def kindUNIX_def AF_UNIX_def AF_INET_def AF_INET6_def)
  moreover have "filename kindUNIX = ''unix''"
    by (simp add: kindUNIX_def)
  ultimately have "NetConnections fieldString hostSixFields ''unix'' = Inl (Panic IndexOutOfRange)"
    using unix by (simp add: NetConnections_def NetConnectionsPid_def)
  with six unix show ?thesis by simp
qed

section \<open>A field that does not parse: fatal in one parser, skipped in the other\<close>

text \<open>
  Both loops read their lines one after the other: behind the lines \<open>pre\<close> they go
  on with what these lines left, or have stopped with their error.
\<close>

lemma unixLoop_append:
  "unixLoop kind inodes filterPid (pre @ after) ret =
     (case unixLoop kind inodes filterPid pre ret of
        Inl e \<Rightarrow> Inl e
      | Inr ret' \<Rightarrow> unixLoop kind inodes filterPid after ret')"
proof (induction pre arbitrary: ret)
  case Nil
  show ?case by simp
next
  case (Cons x pre)
  show ?case
  proof (cases "length (Fields x) < 6")
    case True
    with Cons show ?thesis by simp
  next
    case False
    with Cons show ?thesis
      by (cases "Atoi (Fields x ! 4)") (simp_all add: Let_def)
  qed
qed

lemma inetLoop_append:
  "inetLoop kind inodes filterPid (pre @ after) ret =
     (case inetLoop kind inodes filterPid pre ret of
        Inl e \<Rightarrow> Inl e
      | Inr ret' \<Rightarrow> inetLoop kind inodes filterPid after ret')"
proof (induction pre arbitrary: ret)
  case Nil
  show ?case by simp
next
  case (Cons x pre)
  show ?case
  proof (cases "length (Fields x) < 10")
    case True
    with Cons show ?thesis by simp
  next
    case False
    show ?thesis
    proof (cases "map_of inodes (Fields x ! 9)")
      case None
      with Cons False show ?thesis
        by (simp add: Let_def split: sum.splits)
    next
      case (Some i)
      with Cons False show ?thesis
        by (cases i) (simp_all add: Let_def split: sum.splits)
    qed
  qed
qed

lemma unixLoop_abort:
  "length (Fields line) \<ge> 6 \<Longrightarrow> Atoi (Fields line ! 4) = Inl e \<Longrightarrow>
   \<exists>e'. unixLoop kind inodes filterPid (pre @ line # lines) ret = Inl e'"
  by (cases "unixLoop kind inodes filterPid pre ret") (simp_all add: unixLoop_append)

lemma inetLoop_bad_address:
  assumes len: "length (Fields row) \<ge> 10"
    and owners: "map_of inodes (Fields row ! 9) \<noteq> Some []"
    and bad: "(\<exists>e. decodeAddress (family kind) (Fields row ! 1) = Inl e) \<or>
              (\<exists>e. decodeAddress (family kind) (Fields row ! 2) = Inl e)"
  shows "inetLoop kind inodes filterPid (row # rows) ret = inetLoop kind inodes filterPid rows ret"
proof (cases "map_of inodes (Fields row ! 9)")
  case None
  with len bad show ?thesis
    by (auto simp: Let_def split: sum.splits)
next
  case (Some i)
  with owners obtain x xs where "i = x # xs" by (cases i) auto
  with Some len bad show ?thesis
    by (auto simp: Let_def split: sum.splits)
qed

text \<open>A row that is skipped is as good as absent, wherever it stands.\<close>

lemma inetLoop_row_absent:
  assumes "length (Fields row) \<ge> 10"
    and "map_of inodes (Fields row ! 9) \<noteq> Some []"
    and "(\<exists>e. decodeAddress (family kind) (Fields row ! 1) = Inl e) \<or>
         (\<exists>e. decodeAddress (family kind) (Fields row ! 2) = Inl e)"
  shows "inetLoop kind inodes filterPid (pre @ row # rows) ret =
         inetLoop kind inodes filterPid (pre @ rows) ret"
  by (cases "inetLoop kind inodes filterPid pre ret")
     (simp_all add: inetLoop_append inetLoop_bad_address [OF assms] del: inetLoop.simps)

text \<open>
  Claim C7. In the table of UNIX sockets, a line of at least six fields whose
  field 4 is no number ends the loop with the error of \<open>strconv.Atoi\<close>, whatever
  was collected and whatever follows; wherever such a line stands in the file,
  \<open>processUnix\<close> returns an error and no record, and this error is the one of
  \<open>strconv.Atoi\<close> when the lines before it are read without error. In the INET
  tables, a row that reaches the decoder and whose local or remote address does
  not decode leaves the loop as it was before the row; wherever such a row stands
  in the file, \<open>processInet\<close> returns what the loop returns for the other rows, the
  same as for the file without the row.
\<close>

theorem parse_failure_fatal_or_skipped:
  "(length (Fields line) \<ge> 6 \<longrightarrow> Atoi (Fields line ! 4) = Inl e \<longrightarrow>
      unixLoop kind inodes filterPid (line # lines) ret = Inl (NumError e) \<and>
      (ReadLines h file = Some (header # pre @ line # lines) \<longrightarrow>
         (\<exists>e'. processUnix h file kind inodes filterPid = Inl e') \<and>
         processUnix h file kind inodes filterPid =
           (case unixLoop kind inodes filterPid pre [] of
              Inl e' \<Rightarrow> Inl e'
            | Inr ret' \<Rightarrow> Inl (NumError e)))) \<and>
   (length (Fields row) \<ge> 10 \<longrightarrow> map_of inodes (Fields row ! 9) \<noteq> Some [] \<longrightarrow>
    (\<exists>e. decodeAddress (family kind) (Fields row ! 1) = Inl e) \<or>
    (\<exists>e. decodeAddress (family kind) (Fields row ! 2) = Inl e) \<longrightarrow>
      inetLoop kind inodes filterPid (row # rows) ret = inetLoop kind inodes filterPid rows ret \<and>
      (ReadLines h file = Some (header # pre @ row # rows) \<longrightarrow>
       (HasSuffix file ''6'' \<longrightarrow> PathExists h file) \<longrightarrow>
         processInet h file kind inodes filterPid = inetLoop kind inodes filterPid (pre @ rows) [] \<and>
         (ReadLines h' file = Some (header # pre @ rows) \<longrightarrow>
          (HasSuffix file ''6'' \<longrightarrow> PathExists h' file) \<longrightarrow>
            processInet h file kind inodes filterPid = processInet h' file kind inodes filterPid)))"
proof -
  have unix_file: "processUnix h file kind inodes filterPid =
           (case unixLoop kind inodes filterPid pre [] of
              Inl e' \<Rightarrow> Inl e'
            | Inr ret' \<Rightarrow> Inl (NumError e))"
    if bad: "length (Fields line) \<ge> 6" "Atoi (Fields line ! 4) = Inl e"
      and lines: "ReadLines h file = Some (header # pre @ line # lines)"
  proof -
    from lines have "processUnix h file kind inodes filterPid =
        unixLoop kind inodes filterPid (pre @ line # lines) []"
      by (simp add: processUnix_def)
    also have "\<dots> = (case unixLoop kind inodes filterPid pre [] of
              Inl e' \<Rightarrow> Inl e'
            | Inr ret' \<Rightarrow> unixLoop kind inodes filterPid (line # lines) ret')"
      by (rule unixLoop_append)
    also have "\<dots> = (case unixLoop kind inodes filterPid pre [] of
              Inl e' \<Rightarrow> Inl e'
            | Inr ret' \<Rightarrow> Inl (NumError e))"
      using unixLoop_bad_type [OF bad]
      by (cases "unixLoop kind inodes filterPid pre []") simp_all
    finally show ?thesis .
  qed
  have inet_file: "processInet h file kind inodes filterPid =
      inetLoop kind inodes filterPid (pre @ rows) []"
    if bad: "length (Fields row) \<ge> 10" "map_of inodes (Fields row ! 9) \<noteq> Some []"
      "(\<exists>e. decodeAddress (family kind) (Fields row ! 1) = Inl e) \<or>
       (\<exists>e. decodeAddress (family kind) (Fields row ! 2) = Inl e)"
      and lines: "ReadLines h file = Some (header # pre @ row # rows)"
      and there: "HasSuffix file ''6'' \<longrightarrow> PathExists h file"
  proof -
    from lines there have "processInet h file kind inodes filterPid =
        inetLoop kind inodes filterPid (pre @ row # rows) []"
      by (auto simp: processInet_def)
    with inetLoop_row_absent [OF bad] show ?thesis by simp
  qed
  have inet_other: "processInet h' file kind inodes filterPid =
      inetLoop kind inodes filterPid (pre @ rows) []"
    if "ReadLines h' file = Some (header # pre @ rows)"
      and "HasSuffix file ''6'' \<longrightarrow> PathExists h' file"
    using that by (auto simp: processInet_def)
  show ?thesis
  proof (intro conjI impI)
    assume "length (Fields line) \<ge> 6" "Atoi (Fields line ! 4) = Inl e"
    then show "unixLoop kind inodes filterPid (line # lines) ret = Inl (NumError e)"
      by (rule unixLoop_bad_type)
  next
    assume a: "length (Fields line) \<ge> 6" "Atoi (Fields line ! 4) = Inl e"
      "ReadLines h file = Some (header # pre @ line # lines)"
    from unix_file [OF a] show "\<exists>e'. processUnix h file kind inodes filterPid = Inl e'"
      by (cases "unixLoop kind inodes filterPid pre []") simp_all
  next
    assume "length (Fields line) \<ge> 6" "Atoi (Fields line ! 4) = Inl e"
      "ReadLines h file = Some (header # pre @ line # lines)"
    then show "processUnix h file kind inodes filterPid =
           (case unixLoop kind inodes filterPid pre [] of
              Inl e' \<Rightarrow> Inl e'
            | Inr ret' \<Rightarrow> Inl (NumError e))"
      by (rule unix_file)
  next
    assume "length (Fields row) \<ge> 10" "map_of inodes (Fields row ! 9) \<noteq> Some []"
      "(\<exists>e. decodeAddress (family kind) (Fields row ! 1) = Inl e) \<or>
       (\<exists>e. decodeAddress (family kind) (Fields row ! 2) = Inl e)"
    then show "inetLoop kind inodes filterPid (row # rows) ret = inetLoop kind inodes filterPid rows ret"
      by (rule inetLoop_bad_address)
  next
    assume "length (Fields row) \<ge> 10" "map_of inodes (Fields row ! 9) \<noteq> Some []"
      "(\<exists>e. decodeAddress (family kind) (Fields row ! 1) = Inl e) \<or>
       (\<exists>e. decodeAddress (family kind) (Fields row ! 2) = Inl e)"
      "ReadLines h file = Some (header # pre @ row # rows)"
      "HasSuffix file ''6'' \<longrightarrow> PathExists h file"
    then show "processInet h file kind inodes filterPid = inetLoop kind inodes filterPid (pre @ rows) []"
      by (rule inet_file)
  next
    assume a: "length (Fields row) \<ge> 10" "map_of inodes (Fields row ! 9) \<noteq> Some []"
      "(\<exists>e. decodeAddress (family kind) (Fields row ! 1) = Inl e) \<or>
       (\<exists>e. decodeAddress (family kind) (Fields row ! 2) = Inl e)"
      "ReadLines h file = Some (header # pre @ row # rows)"
      "HasSuffix file ''6'' \<longrightarrow> PathExists h file"
    assume b: "ReadLines h' file = Some (header # pre @ rows)"
      "HasSuffix file ''6'' \<longrightarrow> PathExists h' file"
    from inet_file [OF a] inet_other [OF b]
    show "processInet h file kind inodes filterPid = processInet h' file kind inodes filterPid"
      by simp
  qed
qed

lemma Fields_bad_type_row:
  "Fields ''0000000000000000: 00000002 00000000 00010000 zz 01 101 /run/y.sock'' =
     [''0000000000000000:'', ''00000002'', ''00000000'', ''00010000'', ''zz'', ''01'', ''101'',
      ''/run/y.sock'']"
  by (simp add: Fields_def spaceWidth_def)

lemma Fields_tcp_bad_row:
  "Fields ''   1: 0100007F 00000000:0000 0A 00000000:00000000 00:00000000 00000000     0        0 12346 1 0000000000000000 100 0 0 10 0'' =
     [''1:'', ''0100007F'', ''00000000:0000'', ''0A'', ''00000000:00000000'', ''00:00000000'',
      ''00000000'', ''0'', ''0'', ''12346'', ''1'', ''0000000000000000'', ''100'', ''0'', ''0'', ''10'',
      ''0'']"
  by (simp add: Fields_def spaceWidth_def)

lemma Fields_tcp_row:
  "Fields ''   0: 0100007F:0277 00000000:0000 0A 00000000:00000000 00:00000000 00000000     0        0 12345 1 0000000000000000 100 0 0 10 0'' =
     [''0:'', ''0100007F:0277'', ''00000000:0000'', ''0A'', ''00000000:00000000'', ''00:00000000'',
      ''00000000'', ''0'', ''0'', ''12345'', ''1'', ''0000000000000000'', ''100'', ''0'', ''0'', ''10'',
      ''0'']"
  by (simp add: Fields_def spaceWidth_def)

lemma decode_local: "decodeAddress AF_INET ''0100007F:0277'' = Inr \<lparr>IP = ''127.0.0.1'', Port = 631\<rparr>"
proof -
  have "list_all isHexDigit ''0277''" and "base16 ''0277'' = 631"
    by (simp_all add: isHexDigit_def digitVal_def base16_def)
  with ParseInt_0x_hex [of "''0277''"] have "ParseInt (''0x'' @ ''0277'') 0 64 = Inr 631"
    by simp
  moreover have "Split ''0100007F:0277'' (CHR '':'') = [''0100007F'', ''0277'']" by simp
  ultimately show ?thesis
    using DecodeString_0100007F
    by (simp add: decodeAddress_parts Reverse_4 IP_String_4 uitoa.simps)
qed

lemma decode_remote: "decodeAddress AF_INET ''00000000:0000'' = Inr \<lparr>IP = ''0.0.0.0'', Port = 0\<rparr>"
proof -
  have "list_all isHexDigit ''0000''" and "base16 ''0000'' = 0"
    by (simp_all add: isHexDigit_def digitVal_def base16_def)
  with ParseInt_0x_hex [of "''0000''"] have "ParseInt (''0x'' @ ''0000'') 0 64 = Inr 0"
    by simp
  moreover have "Split ''00000000:0000'' (CHR '':'') = [''00000000'', ''0000'']" by simp
  moreover have "DecodeString ''00000000'' = Some [0, 0, 0, 0]"
    by (simp add: fromHexChar_def)
  ultimately show ?thesis
    by (simp add: decodeAddress_parts Reverse_4 IP_String_4 uitoa.simps)
qed

lemma decode_no_port: "decodeAddress AF_INET ''0100007F'' = Inl (NoPort ''0100007F'')"
  by (simp add: decodeAddress_def)

lemma inetLoop_tcp_row:
  "inetLoop kindTCP4 [] 0
     [''   0: 0100007F:0277 00000000:0000 0A 00000000:00000000 00:00000000 00000000     0        0 12345 1 0000000000000000 100 0 0 10 0'']
     [] =
   Inr [\<lparr>c_fd = 0, c_family = 2, c_sockType = 1, c_laddr = \<lparr>IP = ''127.0.0.1'', Port = 631\<rparr>,
         c_raddr = \<lparr>IP = ''0.0.0.0'', Port = 0\<rparr>, c_status = ''LISTEN'', c_pid = 0,
         c_boundPid = 0, c_path = []\<rparr>]"
  using decode_local decode_remote
  by (simp add: Fields_tcp_row kindTCP4_def AF_INET_def SOCK_STREAM_def TCPStatuses_def)

lemma unixLoop_first_row:
  "unixLoop kindUNIX [] 0
     [''0000000000000000: 00000002 00000000 00010000 0001 01 100 /run/x.sock''] [] =
   Inr [\<lparr>c_fd = 0, c_family = 1, c_sockType = 1, c_laddr = \<lparr>IP = ''/run/x.sock'', Port = 0\<rparr>,
         c_raddr = \<lparr>IP = [], Port = 0\<rparr>, c_status = ''NONE'', c_pid = 0, c_boundPid = 0,
         c_path = ''/run/x.sock''\<rparr>]"
  by (simp add: Fields_unix_row strconv_defs kindUNIX_def AF_UNIX_def Let_def)

lemma NetConnections_hostTcp:
  "processInet hostTcp ''/proc/net/tcp'' kindTCP4 [] 0 =
     Inr [\<lparr>c_fd = 0, c_family = 2, c_sockType = 1, c_laddr = \<lparr>IP = ''127.0.0.1'', Port = 631\<rparr>,
           c_raddr = \<lparr>IP = ''0.0.0.0'', Port = 0\<rparr>, c_status = ''LISTEN'', c_pid = 0,
           c_boundPid = 0, c_path = []\<rparr>] \<Longrightarrow>
   NetConnections fieldString hostTcp ''tcp4'' =
     Inr [\<lparr>Fd = 0, Family = 2, Type = 1, Laddr = \<lparr>IP = ''127.0.0.1'', Port = 631\<rparr>,
           Raddr = \<lparr>IP = ''0.0.0.0'', Port = 0\<rparr>, Status = ''LISTEN'', Pid = 0\<rparr>]"
proof -
  assume inet: "processInet hostTcp ''/proc/net/tcp'' kindTCP4 [] 0 =
     Inr [\<lparr>c_fd = 0, c_family = 2, c_sockType = 1, c_laddr = \<lparr>IP = ''127.0.0.1'', Port = 631\<rparr>,
           c_raddr = \<lparr>IP = ''0.0.0.0'', Port = 0\<rparr>, c_status = ''LISTEN'', c_pid = 0,
           c_boundPid = 0, c_path = []\<rparr>]"
  have "getProcInodesAll hostTcp ''/proc'' = Inr []"
    by (simp add: getProcInodesAll_def Pids_def hostTcp_def procfs_def)
  moreover have "HostProc hostTcp [] = ''/proc''"
    by (simp add: hostTcp_def procfs_def)
  moreover have "map_of netConnectionKindMap ''tcp4'' = Some [kindTCP4]"
    by (simp add: netConnectionKindMap_def)
  moreover have "processFamily hostTcp ''/proc/net/tcp'' kindTCP4 [] 0 =
      processInet hostTcp ''/proc/net/tcp'' kindTCP4 [] 0"
    by (simp add: processFamily_def kindTCP4_def)
  moreover have "filename kindTCP4 = ''tcp''"
    by (simp add: kindTCP4_def)
  ultimately show ?thesis
    using inet by (simp add: NetConnections_def NetConnectionsPid_def connOf_def fieldString_def)
qed

text \<open>
  The table of \<open>hostBadType\<close> gives the error of \<open>strconv.Atoi\<close> though its first and
  third row are sound. In the table of \<open>hostTcp\<close> the row with the local address
  \<open>0100007F\<close> is skipped: \<open>processInet\<close> and \<open>NetConnections\<close> return the row behind it.
\<close>

theorem parse_failure_fatal_or_skipped_witness:
  "Atoi ''zz'' = Inl ErrSyntax \<and>
   processUnix hostBadType ''/proc/net/unix'' kindUNIX [] 0 = Inl (NumError ErrSyntax) \<and>
   decodeAddress AF_INET ''0100007F'' = Inl (NoPort ''0100007F'') \<and>
   inetLoop kindTCP4 [] 0
     [''   1: 0100007F 00000000:0000 0A 00000000:00000000 00:00000000 00000000     0        0 12346 1 0000000000000000 100 0 0 10 0'',
      ''   0: 0100007F:0277 00000000:0000 0A 00000000:00000000 00:00000000 00000000     0        0 12345 1 0000000000000000 100 0 0 10 0'']
     [] =
   Inr [\<lparr>c_fd = 0, c_family = 2, c_sockType = 1, c_laddr = \<lparr>IP = ''127.0.0.1'', Port = 631\<rparr>,
         c_raddr = \<lparr>IP = ''0.0.0.0'', Port = 0\<rparr>, c_status = ''LISTEN'', c_pid = 0,
         c_boundPid = 0, c_path = []\<rparr>] \<and>
   processInet hostTcp ''/proc/net/tcp'' kindTCP4 [] 0 =
     Inr [\<lparr>c_fd = 0, c_family = 2, c_sockType = 1, c_laddr = \<lparr>IP = ''127.0.0.1'', Port = 631\<rparr>,
           c_raddr = \<lparr>IP = ''0.0.0.0'', Port = 0\<rparr>, c_status = ''LISTEN'', c_pid = 0,
           c_boundPid = 0, c_path = []\<rparr>] \<and>
   NetConnections fieldString hostTcp ''tcp4'' =
     Inr [\<lparr>Fd = 0, Family = 2, Type = 1, Laddr = \<lparr>IP = ''127.0.0.1'', Port = 631\<rparr>,
           Raddr = \<lparr>IP = ''0.0.0.0'', Port = 0\<rparr>, Status = ''LISTEN'', Pid = 0\<rparr>]"
proof -
  let ?bad = "''0000000000000000: 00000002 00000000 00010000 zz 01 101 /run/y.sock''"
  let ?row = "''   1: 0100007F 00000000:0000 0A 00000000:00000000 00:00000000 00000000     0        0 12346 1 0000000000000000 100 0 0 10 0''"
  let ?next = "''   0: 0100007F:0277 00000000:0000 0A 00000000:00000000 00:00000000 00000000     0        0 12345 1 0000000000000000 100 0 0 10 0''"
  let ?head = "''  sl  local_address rem_address   st tx_queue rx_queue tr tm->when retrnsmt   uid  timeout inode''"
  have zz: "Atoi ''zz'' = Inl ErrSyntax"
    by (simp add: strconv_defs)
  have len: "length (Fields ?bad) \<ge> 6" and field: "Atoi (Fields ?bad ! 4) = Inl ErrSyntax"
    by (simp_all add: Fields_bad_type_row zz)
  have table: "ReadLines hostBadType ''/proc/net/unix'' =
      Some (''Num       RefCount Protocol Flags    Type St Inode Path'' #
            [''0000000000000000: 00000002 00000000 00010000 0001 01 100 /run/x.sock''] @
            ?bad # [''0000000000000000: 00000002 00000000 00010000 0001 01 102 /run/z.sock''])"
    by (simp add: hostBadType_def procfs_def)
  from parse_failure_fatal_or_skipped [THEN conjunct1, rule_format, OF len field, THEN conjunct2,
      rule_format, OF table, THEN conjunct2, of kindUNIX "[]" 0]
  have unix: "processUnix hostBadType ''/proc/net/unix'' kindUNIX [] 0 = Inl (NumError ErrSyntax)"
    by (simp add: unixLoop_first_row del: unixLoop.simps)
  have len10: "length (Fields ?row) \<ge> 10" and owners: "map_of [] (Fields ?row ! 9) \<noteq> Some []"
    by (simp_all add: Fields_tcp_bad_row)
  have bad: "(\<exists>e. decodeAddress (family kindTCP4) (Fields ?row ! 1) = Inl e) \<or>
             (\<exists>e. decodeAddress (family kindTCP4) (Fields ?row ! 2) = Inl e)"
    by (simp add: Fields_tcp_bad_row kindTCP4_def decode_no_port)
  note inet = parse_failure_fatal_or_skipped [THEN conjunct2, rule_format, OF len10 owners bad]
  from inet [THEN conjunct1]
  have loop: "inetLoop kindTCP4 [] 0 [?row, ?next] [] = inetLoop kindTCP4 [] 0 [?next] []" .
  have lines: "ReadLines hostTcp ''/proc/net/tcp'' = Some (?head # [] @ ?row # [?next])"
    by (simp add: hostTcp_def procfs_def)
  have there: "PathExists hostTcp ''/proc/net/tcp''" if "HasSuffix ''/proc/net/tcp'' ''6''"
    using that by (simp add: HasSuffix_def)
  from inet [THEN conjunct2, rule_format, OF lines there, THEN conjunct1]
  have "processInet hostTcp ''/proc/net/tcp'' kindTCP4 [] 0 = inetLoop kindTCP4 [] 0 ([] @ [?next]) []" .
  with inetLoop_tcp_row
  have whole: "processInet hostTcp ''/proc/net/tcp'' kindTCP4 [] 0 =
     Inr [\<lparr>c_fd = 0, c_family = 2, c_sockType = 1, c_laddr = \<lparr>IP = ''127.0.0.1'', Port = 631\<rparr>,
           c_raddr = \<lparr>IP = ''0.0.0.0'', Port = 0\<rparr>, c_status = ''LISTEN'', c_pid = 0,
           c_boundPid = 0, c_path = []\<rparr>]"
    by simp
  from loop inetLoop_tcp_row
  have loop': "inetLoop kindTCP4 [] 0 [?row, ?next] [] =
     Inr [\<lparr>c_fd = 0, c_family = 2, c_sockType = 1, c_laddr = \<lparr>IP = ''127.0.0.1'', Port = 631\<rparr>,
           c_raddr = \<lparr>IP = ''0.0.0.0'', Port = 0\<rparr>, c_status = ''LISTEN'', c_pid = 0,
           c_boundPid = 0, c_path = []\<rparr>]"
    by simp
  from zz unix decode_no_port loop' whole NetConnections_hostTcp [OF whole]
  show ?thesis by (intro conjI)
qed


section \<open>NetProtoCounters\<close>

text \<open>What the loop does with the two lines at its head.\<close>

lemma protoLoop_skip:
  "IndexRune hdr (CHR '':'') = Some r \<Longrightarrow> ToLower h (take r hdr) \<notin> set protocols \<Longrightarrow>
   protoLoop h protocols (hdr # data # rest) stats = protoLoop h protocols rest stats"
  by simp

lemma protoLoop_mismatch:
  "IndexRune hdr (CHR '':'') = Some r \<Longrightarrow> ToLower h (take r hdr) \<in> set protocols \<Longrightarrow>
   r + 2 \<le> length hdr \<Longrightarrow> r + 2 \<le> length data \<Longrightarrow>
   length (Split (drop (r + 2) hdr) (CHR '' '')) \<noteq> length (Split (drop (r + 2) data) (CHR '' '')) \<Longrightarrow>
   protoLoop h protocols (hdr # data # rest) stats = Inl ColumnCount"
  by (simp add: Let_def)

text \<open>
  The loop takes the lines two at a time: behind an even number of lines it goes
  on with what these lines left, or has stopped with their error.
\<close>

lemma protoLoop_append:
  "even (length pre) \<Longrightarrow>
   protoLoop h protocols (pre @ after) stats =
     (case protoLoop h protocols pre stats of
        Inl e \<Rightarrow> Inl e
      | Inr stats' \<Rightarrow> protoLoop h protocols after stats')"
proof (induction pre arbitrary: stats rule: length_induct)
  case (1 pre)
  show ?case
  proof (cases pre)
    case Nil
    then show ?thesis by simp
  next
    case (Cons line rest)
    with "1.prems" obtain data rest' where rest: "rest = data # rest'"
      by (cases rest) auto
    with Cons "1.prems" have ev: "even (length rest')" by simp
    from Cons rest have shorter: "length rest' < length pre" by simp
    note IH = "1.IH" [rule_format, OF shorter ev]
    show ?thesis
    proof (cases "IndexRune line (CHR '':'')")
      case None
      with Cons show ?thesis by simp
    next
      case (Some r)
      show ?thesis
      proof (cases "ToLower h (take r line) \<in> set protocols")
        case False
        with Some Cons rest IH show ?thesis by simp
      next
        case True
        show ?thesis
        proof (cases "statLoop (Split (drop (r + 2) line) (CHR '' '')) (Split (drop (r + 2) data) (CHR '' '')) []")
          case (Inl e)
          with True Some Cons rest show ?thesis by (simp add: Let_def)
        next
          case (Inr m)
          with True Some Cons rest IH show ?thesis by (simp add: Let_def)
        qed
      qed
    qed
  qed
qed

text \<open>Every counter set of the result is the one of a protocol that was asked for.\<close>

lemma protoLoop_protocols:
  "protoLoop h protocols lines stats = Inr out \<Longrightarrow> \<forall>s \<in> set stats. Protocol s \<in> set protocols \<Longrightarrow>
   \<forall>s \<in> set out. Protocol s \<in> set protocols"
proof (induction lines arbitrary: stats rule: length_induct)
  case (1 lines)
  show ?case
  proof (cases lines)
    case Nil
    with "1.prems" show ?thesis by simp
  next
    case (Cons line rest)
    show ?thesis
    proof (cases "IndexRune line (CHR '':'')")
      case None
      with Cons "1.prems" show ?thesis by simp
    next
      case (Some r)
      show ?thesis
      proof (cases "ToLower h (take r line) \<in> set protocols")
        case False
        show ?thesis
        proof (cases rest)
          case Nil
          with False Some Cons "1.prems" show ?thesis by simp
        next
          case (Cons skipped rest')
          with False Some \<open>lines = line # rest\<close> "1.prems"
          have "protoLoop h protocols rest' stats = Inr out" by simp
          moreover have "length rest' < length lines"
            using Cons \<open>lines = line # rest\<close> by simp
          ultimately show ?thesis using "1.IH" "1.prems"(2) by blast
        qed
      next
        case True
        from True Some Cons "1.prems"(1) obtain data rest' where rest: "rest = data # rest'"
          by (cases rest) (auto simp: Let_def split: if_splits)
        from True Some Cons rest "1.prems"(1) obtain m where
          "protoLoop h protocols rest'
             (stats @ [\<lparr>Protocol = ToLower h (take r line), Stats = m\<rparr>]) = Inr out"
          by (auto simp: Let_def split: if_splits sum.splits)
        moreover have "length rest' < length lines"
          using Cons rest by simp
        moreover have "\<forall>s \<in> set (stats @ [\<lparr>Protocol = ToLower h (take r line), Stats = m\<rparr>]).
            Protocol s \<in> set protocols"
          using True "1.prems"(2) by simp
        ultimately show ?thesis using "1.IH" by blast
      qed
    qed
  qed
qed

text \<open>The loop uses nothing of the host but the lower-casing of non-ASCII names.\<close>

lemma protoLoop_host:
  assumes "MapToLower h' = MapToLower h"
  shows "protoLoop h' protocols lines stats = protoLoop h protocols lines stats"
proof (induction lines arbitrary: stats rule: length_induct)
  case (1 lines)
  have lower: "ToLower h' s = ToLower h s" for s
    using assms by (simp add: ToLower_def)
  show ?case
  proof (cases lines)
    case Nil
    then show ?thesis by simp
  next
    case (Cons line rest)
    show ?thesis
    proof (cases rest)
      case Nil
      with Cons show ?thesis
        by (simp add: lower Let_def split: option.splits)
    next
      case rest: (Cons data rest')
      have "length rest' < length lines" using Cons rest by simp
      with "1.IH" have IH: "protoLoop h' protocols rest' st = protoLoop h protocols rest' st" for st
        by blast
      from Cons rest show ?thesis
        by (simp add: lower Let_def IH split: option.splits sum.splits)
    qed
  qed
qed

lemmas snmp_eval =
  NetProtoCounters_def procfs_def ToLower_def lowerByte_def strconv_defs Let_def netProtocols_def

lemma NetProtoCounters_hostSnmpShort:
  "NetProtoCounters hostSnmpShort [''ip'', ''tcp''] = Inl ColumnCount"
  by (simp add: snmp_eval hostSnmpShort_def)

lemma NetProtoCounters_hostSnmpBad:
  "NetProtoCounters hostSnmpBad [''ip'', ''tcp''] = Inl (NumError ErrSyntax)"
  by (simp add: snmp_eval hostSnmpBad_def)

lemma NetProtoCounters_hostSnmp_tcp:
  "NetProtoCounters hostSnmp [''tcp''] =
     Inr [\<lparr>Protocol = ''tcp'', Stats = [(''RtoAlgorithm'', 1), (''MaxConn'', - 1)]\<rparr>]"
  by (simp add: snmp_eval hostSnmp_def)

lemma NetProtoCounters_hostSnmp_all:
  "NetProtoCounters hostSnmp [] =
     Inr [\<lparr>Protocol = ''ip'', Stats = [(''Forwarding'', 1), (''DefaultTTL'', 64)]\<rparr>,
          \<lparr>Protocol = ''icmp'', Stats = [(''InMsgs'', 10), (''InErrors'', 0)]\<rparr>,
          \<lparr>Protocol = ''icmpmsg'', Stats = [(''InType3'', 5), (''OutType3'', 7)]\<rparr>,
          \<lparr>Protocol = ''tcp'', Stats = [(''RtoAlgorithm'', 1), (''MaxConn'', - 1)]\<rparr>,
          \<lparr>Protocol = ''udp'', Stats = [(''InDatagrams'', 100), (''NoPorts'', 2)]\<rparr>,
          \<lparr>Protocol = ''udplite'', Stats = [(''InDatagrams'', 0), (''NoPorts'', 0)]\<rparr>]"
  by (simp add: snmp_eval hostSnmp_def)

text \<open>
  Claim C8, as the code has it. Let the file hold, behind an even number of
  lines, the header and the value line of a protocol that is asked for (any of
  the six when the list is empty), the two with different numbers of columns.
  Then \<open>NetProtoCounters\<close> returns an error and no result: the error of the column
  count when the lines before the pair are parsed without error, and otherwise
  the error that the loop returns for these lines, which is the error of the call
  on the file that ends before the pair. For a list that is not empty, the two lines
  of a protocol that is not in the list are passed over unread, the value line
  whatever it holds, and no counter set of a result bears its name.
\<close>

theorem column_count_and_omitted_protocols:
  "(IndexRune hdr (CHR '':'') = Some r \<longrightarrow>
    ToLower h (take r hdr) \<in> set (if length protocols = 0 then netProtocols else protocols) \<longrightarrow>
    r + 2 \<le> length hdr \<longrightarrow> r + 2 \<le> length data \<longrightarrow>
    length (Split (drop (r + 2) hdr) (CHR '' '')) \<noteq> length (Split (drop (r + 2) data) (CHR '' '')) \<longrightarrow>
    ReadLines h (HostProc h [''net/snmp'']) = Some (pre @ hdr # data # rest) \<longrightarrow> even (length pre) \<longrightarrow>
      (\<exists>e. NetProtoCounters h protocols = Inl e) \<and>
      ((\<exists>stats. protoLoop h (if length protocols = 0 then netProtocols else protocols) pre [] = Inr stats) \<longrightarrow>
         NetProtoCounters h protocols = Inl ColumnCount \<and> FormatError ColumnCount) \<and>
      NetProtoCounters h protocols =
        (case protoLoop h (if length protocols = 0 then netProtocols else protocols) pre [] of
           Inl e \<Rightarrow> Inl e
         | Inr stats' \<Rightarrow> Inl ColumnCount) \<and>
      (ReadLines h' (HostProc h' [''net/snmp'']) = Some pre \<longrightarrow> MapToLower h' = MapToLower h \<longrightarrow>
         NetProtoCounters h protocols =
           (case NetProtoCounters h' protocols of
              Inl e \<Rightarrow> Inl e
            | Inr stats' \<Rightarrow> Inl ColumnCount))) \<and>
   (protocols \<noteq> [] \<longrightarrow> IndexRune hdr (CHR '':'') = Some r \<longrightarrow>
    ToLower h (take r hdr) \<notin> set protocols \<longrightarrow>
      protoLoop h protocols (hdr # data # rest) stats = protoLoop h protocols rest stats \<and>
      (\<forall>out. NetProtoCounters h protocols = Inr out \<longrightarrow>
         ToLower h (take r hdr) \<notin> Protocol ` set out))"
proof -
  let ?asked = "if length protocols = 0 then netProtocols else protocols"
  have loop: "NetProtoCounters h protocols =
      (case protoLoop h ?asked pre [] of Inl e \<Rightarrow> Inl e | Inr stats' \<Rightarrow> Inl ColumnCount)"
    if r: "IndexRune hdr (CHR '':'') = Some r" and asked: "ToLower h (take r hdr) \<in> set ?asked"
      and len: "r + 2 \<le> length hdr" "r + 2 \<le> length data"
      and cols: "length (Split (drop (r + 2) hdr) (CHR '' '')) \<noteq>
                 length (Split (drop (r + 2) data) (CHR '' ''))"
      and lines: "ReadLines h (HostProc h [''net/snmp'']) = Some (pre @ hdr # data # rest)"
      and ev: "even (length pre)"
  proof -
    have "NetProtoCounters h protocols = protoLoop h ?asked (pre @ hdr # data # rest) []"
      using lines by (simp add: NetProtoCounters_def Let_def)
    also have "\<dots> = (case protoLoop h ?asked pre [] of
                        Inl e \<Rightarrow> Inl e
                      | Inr stats' \<Rightarrow> protoLoop h ?asked (hdr # data # rest) stats')"
      using ev by (rule protoLoop_append)
    also have "\<dots> = (case protoLoop h ?asked pre [] of Inl e \<Rightarrow> Inl e | Inr stats' \<Rightarrow> Inl ColumnCount)"
      using protoLoop_mismatch [OF r asked len cols]
      by (cases "protoLoop h ?asked pre []") simp_all
    finally show ?thesis .
  qed
  have absent: "ToLower h (take r hdr) \<notin> Protocol ` set out"
    if ne: "protocols \<noteq> []" and omitted: "ToLower h (take r hdr) \<notin> set protocols"
      and res: "NetProtoCounters h protocols = Inr out" for out
  proof -
    from res ne obtain lines where "protoLoop h protocols lines [] = Inr out"
      by (auto simp: NetProtoCounters_def Let_def split: option.splits)
    from protoLoop_protocols [OF this] have "\<forall>s \<in> set out. Protocol s \<in> set protocols"
      by simp
    with omitted show ?thesis by auto
  qed
  show ?thesis
  proof (intro conjI impI allI)
    assume a: "IndexRune hdr (CHR '':'') = Some r" "ToLower h (take r hdr) \<in> set ?asked"
      "r + 2 \<le> length hdr" "r + 2 \<le> length data"
      "length (Split (drop (r + 2) hdr) (CHR '' '')) \<noteq> length (Split (drop (r + 2) data) (CHR '' ''))"
      "ReadLines h (HostProc h [''net/snmp'']) = Some (pre @ hdr # data # rest)" "even (length pre)"
    from loop [OF a] show "\<exists>e. NetProtoCounters h protocols = Inl e"
      by (cases "protoLoop h ?asked pre []") simp_all
    assume "\<exists>stats. protoLoop h ?asked pre [] = Inr stats"
    with loop [OF a] show "NetProtoCounters h protocols = Inl ColumnCount"
      by auto
  next
    show "FormatError ColumnCount" by simp
  next
    assume "IndexRune hdr (CHR '':'') = Some r" "ToLower h (take r hdr) \<in> set ?asked"
      "r + 2 \<le> length hdr" "r + 2 \<le> length data"
      "length (Split (drop (r + 2) hdr) (CHR '' '')) \<noteq> length (Split (drop (r + 2) data) (CHR '' ''))"
      "ReadLines h (HostProc h [''net/snmp'']) = Some (pre @ hdr # data # rest)" "even (length pre)"
    then show "NetProtoCounters h protocols =
        (case protoLoop h ?asked pre [] of Inl e \<Rightarrow> Inl e | Inr stats' \<Rightarrow> Inl ColumnCount)"
      by (rule loop)
  next
    assume a: "IndexRune hdr (CHR '':'') = Some r" "ToLower h (take r hdr) \<in> set ?asked"
      "r + 2 \<le> length hdr" "r + 2 \<le> length data"
      "length (Split (drop (r + 2) hdr) (CHR '' '')) \<noteq> length (Split (drop (r + 2) data) (CHR '' ''))"
      "ReadLines h (HostProc h [''net/snmp'']) = Some (pre @ hdr # data # rest)" "even (length pre)"
    assume b: "ReadLines h' (HostProc h' [''net/snmp'']) = Some pre" "MapToLower h' = MapToLower h"
    have "NetProtoCounters h' protocols = protoLoop h ?asked pre []"
      using b by (simp add: NetProtoCounters_def Let_def protoLoop_host [OF b(2)])
    with loop [OF a]
    show "NetProtoCounters h protocols =
        (case NetProtoCounters h' protocols of Inl e \<Rightarrow> Inl e | Inr stats' \<Rightarrow> Inl ColumnCount)"
      by simp
  next
    assume "IndexRune hdr (CHR '':'') = Some r" "ToLower h (take r hdr) \<notin> set protocols"
    then show "protoLoop h protocols (hdr # data # rest) stats = protoLoop h protocols rest stats"
      by (rule protoLoop_skip)
  next
    fix out
    assume "protocols \<noteq> []" "ToLower h (take r hdr) \<notin> set protocols"
      "NetProtoCounters h protocols = Inr out"
    then show "ToLower h (take r hdr) \<notin> Protocol ` set out" by (rule absent)
  qed
qed

text \<open>
  On \<open>hostSnmpShort\<close> the pair of \<open>Tcp\<close> has two labels and one value, behind the
  sound pair of \<open>Ip\<close>: the call fails with the error of the column count. On
  \<open>hostSnmpBad\<close> the pair of \<open>Ip\<close> before it holds the value \<open>x\<close>: the call fails
  with the error of \<open>strconv.ParseInt\<close> for this value. On
  \<open>hostSnmp\<close>, asked for \<open>tcp\<close> alone, the result holds \<open>tcp\<close> and not \<open>ip\<close>.
\<close>

theorem column_count_and_omitted_protocols_witness:
  "NetProtoCounters hostSnmpShort [''ip'', ''tcp''] = Inl ColumnCount \<and>
   NetProtoCounters hostSnmpBad [''ip'', ''tcp''] = Inl (NumError ErrSyntax) \<and>
   NetProtoCounters hostSnmp [''tcp''] =
     Inr [\<lparr>Protocol = ''tcp'', Stats = [(''RtoAlgorithm'', 1), (''MaxConn'', - 1)]\<rparr>] \<and>
   ''ip'' \<notin> Protocol ` set [\<lparr>Protocol = ''tcp'', Stats = [(''RtoAlgorithm'', 1), (''MaxConn'', - 1)]\<rparr>]"
proof -
  have i_hostSnmpShort: "IndexRune ''Tcp: RtoAlgorithm MaxConn'' (CHR '':'') = Some 3"
    by simp
  have m_hostSnmpShort: "ToLower hostSnmpShort (take 3 ''Tcp: RtoAlgorithm MaxConn'') \<in>
      set (if length [''ip'', ''tcp''] = 0 then netProtocols else [''ip'', ''tcp''])"
    by (simp add: ToLower_def lowerByte_def)
  have l_hostSnmpShort: "3 + 2 \<le> length ''Tcp: RtoAlgorithm MaxConn''" "3 + 2 \<le> length ''Tcp: 1''"
    by simp_all
  have n_hostSnmpShort: "length (Split (drop (3 + 2) ''Tcp: RtoAlgorithm MaxConn'') (CHR '' '')) \<noteq>
      length (Split (drop (3 + 2) ''Tcp: 1'') (CHR '' ''))"
    by simp
  have r_hostSnmpShort: "ReadLines hostSnmpShort (HostProc hostSnmpShort [''net/snmp'']) =
      Some ([''Ip: Forwarding DefaultTTL'', ''Ip: 1 64''] @
            ''Tcp: RtoAlgorithm MaxConn'' # ''Tcp: 1'' # [])"
    by (simp add: hostSnmpShort_def procfs_def)
  have e_hostSnmpShort: "even (length [''Ip: Forwarding DefaultTTL'', ''Ip: 1 64''])"
    by simp
  note at_hostSnmpShort = column_count_and_omitted_protocols
    [of "''Tcp: RtoAlgorithm MaxConn''" 3 hostSnmpShort "[''ip'', ''tcp'']" "''Tcp: 1''"
        "[''Ip: Forwarding DefaultTTL'', ''Ip: 1 64'']" "[]", THEN conjunct1, rule_format,
     OF i_hostSnmpShort m_hostSnmpShort l_hostSnmpShort n_hostSnmpShort r_hostSnmpShort e_hostSnmpShort]
  have "protoLoop hostSnmpShort
          (if length [''ip'', ''tcp''] = 0 then netProtocols else [''ip'', ''tcp''])
          [''Ip: Forwarding DefaultTTL'', ''Ip: 1 64''] [] =
        Inr [\<lparr>Protocol = ''ip'', Stats = [(''Forwarding'', 1), (''DefaultTTL'', 64)]\<rparr>]"
    by (simp add: ToLower_def lowerByte_def strconv_defs Let_def)
  with at_hostSnmpShort [THEN conjunct2, THEN conjunct1]
  have short: "NetProtoCounters hostSnmpShort [''ip'', ''tcp''] = Inl ColumnCount"
    by blast
  have i_hostSnmpBad: "IndexRune ''Tcp: RtoAlgorithm MaxConn'' (CHR '':'') = Some 3"
    by simp
  have m_hostSnmpBad: "ToLower hostSnmpBad (take 3 ''Tcp: RtoAlgorithm MaxConn'') \<in>
      set (if length [''ip'', ''tcp''] = 0 then netProtocols else [''ip'', ''tcp''])"
    by (simp add: ToLower_def lowerByte_def)
  have l_hostSnmpBad: "3 + 2 \<le> length ''Tcp: RtoAlgorithm MaxConn''" "3 + 2 \<le> length ''Tcp: 1''"
    by simp_all
  have n_hostSnmpBad: "length (Split (drop (3 + 2) ''Tcp: RtoAlgorithm MaxConn'') (CHR '' '')) \<noteq>
      length (Split (drop (3 + 2) ''Tcp: 1'') (CHR '' ''))"
    by simp
  have r_hostSnmpBad: "ReadLines hostSnmpBad (HostProc hostSnmpBad [''net/snmp'']) =
      Some ([''Ip: Forwarding DefaultTTL'', ''Ip: 1 x''] @
            ''Tcp: RtoAlgorithm MaxConn'' # ''Tcp: 1'' # [])"
    by (simp add: hostSnmpBad_def procfs_def)
  have e_hostSnmpBad: "even (length [''Ip: Forwarding DefaultTTL'', ''Ip: 1 x''])"
    by simp
  note at_hostSnmpBad = column_count_and_omitted_protocols
    [of "''Tcp: RtoAlgorithm MaxConn''" 3 hostSnmpBad "[''ip'', ''tcp'']" "''Tcp: 1''"
        "[''Ip: Forwarding DefaultTTL'', ''Ip: 1 x'']" "[]", THEN conjunct1, rule_format,
     OF i_hostSnmpBad m_hostSnmpBad l_hostSnmpBad n_hostSnmpBad r_hostSnmpBad e_hostSnmpBad]
  have "protoLoop hostSnmpBad
          (if length [''ip'', ''tcp''] = 0 then netProtocols else [''ip'', ''tcp''])
          [''Ip: Forwarding DefaultTTL'', ''Ip: 1 x''] [] = Inl (NumError ErrSyntax)"
    by (simp add: ToLower_def lowerByte_def strconv_defs Let_def)
  with at_hostSnmpBad [THEN conjunct2, THEN conjunct2, THEN conjunct1]
  have early: "NetProtoCounters hostSnmpBad [''ip'', ''tcp''] = Inl (NumError ErrSyntax)"
    by simp
  have "''ip'' \<notin> Protocol ` set [\<lparr>Protocol = ''tcp'', Stats = [(''RtoAlgorithm'', 1), (''MaxConn'', - 1 :: int)]\<rparr>]"
    using column_count_and_omitted_protocols
      [of "''Ip: Forwarding DefaultTTL''" 2 hostSnmp "[''tcp'']", THEN conjunct2, rule_format,
       THEN conjunct2, rule_format,
       of "[\<lparr>Protocol = ''tcp'', Stats = [(''RtoAlgorithm'', 1), (''MaxConn'', - 1)]\<rparr>]"]
      NetProtoCounters_hostSnmp_tcp
    by (simp add: ToLower_def lowerByte_def)
  with short early NetProtoCounters_hostSnmp_tcp show ?thesis by simp
qed

text \<open>
  On \<open>hostSnmpBad\<close> the pair of \<open>Tcp\<close> has two labels and one value, and the call
  fails with the error of the value \<open>x\<close> in the pair of \<open>Ip\<close> before it.
\<close>

theorem column_count_counterexample:
  "ReadLines hostSnmpBad (HostProc hostSnmpBad [''net/snmp'']) =
     Some [''Ip: Forwarding DefaultTTL'', ''Ip: 1 x'', ''Tcp: RtoAlgorithm MaxConn'', ''Tcp: 1''] \<and>
   length (Split ''RtoAlgorithm MaxConn'' (CHR '' '')) = 2 \<and> length (Split ''1'' (CHR '' '')) = 1 \<and>
   NetProtoCounters hostSnmpBad [''ip'', ''tcp''] = Inl (NumError ErrSyntax) \<and>
   \<not> FormatError (NumError ErrSyntax)"
  using NetProtoCounters_hostSnmpBad by (simp add: hostSnmpBad_def procfs_def)

text \<open>The loops on well-formed pairs of lines.\<close>

lemma statLoop_ok:
  "length statNames = length statValues \<Longrightarrow>
   list_all (\<lambda>v. case ParseInt v 10 64 of Inl e \<Rightarrow> False | Inr n \<Rightarrow> True) statValues \<Longrightarrow>
   \<exists>m. statLoop statNames statValues stats = Inr m"
proof (induction statNames arbitrary: statValues stats)
  case Nil
  then show ?case by simp
next
  case (Cons name statNames)
  then obtain v vs where vs: "statValues = v # vs" by (cases statValues) auto
  with Cons.prems obtain n where n: "ParseInt v 10 64 = Inr n"
    by (cases "ParseInt v 10 64") auto
  from Cons.prems vs have "length statNames = length vs"
    "list_all (\<lambda>v. case ParseInt v 10 64 of Inl e \<Rightarrow> False | Inr n \<Rightarrow> True) vs"
    by simp_all
  from Cons.IH [OF this] vs n show ?case by simp
qed

lemma protoLoop_wellFormed:
  "list_all wellFormedPair pairs \<Longrightarrow> \<forall>p \<in> set pairs. pairProto h p \<in> set protocols \<Longrightarrow>
   \<exists>out. protoLoop h protocols (pairLines pairs) stats = Inr (stats @ out) \<and>
         map Protocol out = map (pairProto h) pairs"
proof (induction pairs arbitrary: stats)
  case Nil
  then show ?case by (simp add: pairLines_def)
next
  case (Cons p pairs)
  obtain hdr data where p: "p = (hdr, data)" by (cases p)
  from Cons.prems(1) p obtain r where r: "IndexRune hdr (CHR '':'') = Some r"
    and len: "r + 2 \<le> length hdr" "r + 2 \<le> length data"
    and cols: "length (Split (drop (r + 2) hdr) (CHR '' '')) = length (Split (drop (r + 2) data) (CHR '' ''))"
    and nums: "list_all (\<lambda>v. case ParseInt v 10 64 of Inl e \<Rightarrow> False | Inr n \<Rightarrow> True)
                 (Split (drop (r + 2) data) (CHR '' ''))"
    by (auto simp: wellFormedPair_def split: option.splits)
  from statLoop_ok [OF cols nums] obtain m where
    m: "statLoop (Split (drop (r + 2) hdr) (CHR '' '')) (Split (drop (r + 2) data) (CHR '' '')) [] = Inr m"
    by blast
  from r p have proto: "pairProto h p = ToLower h (take r hdr)"
    by (simp add: pairProto_def)
  with Cons.prems(2) have asked: "ToLower h (take r hdr) \<in> set protocols" by auto
  let ?s = "\<lparr>Protocol = ToLower h (take r hdr), Stats = m\<rparr>"
  from Cons.prems have "list_all wellFormedPair pairs" "\<forall>p \<in> set pairs. pairProto h p \<in> set protocols"
    by simp_all
  from Cons.IH [OF this, of "stats @ [?s]"] obtain out where
    out: "protoLoop h protocols (pairLines pairs) (stats @ [?s]) = Inr ((stats @ [?s]) @ out)"
      "map Protocol out = map (pairProto h) pairs"
    by blast
  have "protoLoop h protocols (pairLines (p # pairs)) stats =
      protoLoop h protocols (pairLines pairs) (stats @ [?s])"
    using p r asked len cols m by (simp add: pairLines_def Let_def)
  with out proto have "protoLoop h protocols (pairLines (p # pairs)) stats = Inr (stats @ (?s # out))"
    "map Protocol (?s # out) = map (pairProto h) (p # pairs)"
    by simp_all
  then show ?case by blast
qed

text \<open>
  Claim C10. With the empty list \<open>NetProtoCounters\<close> is the call with the list of
  the six known protocols. On a file of well-formed pairs of lines, one for each
  of the six protocols, it returns no error and six counter sets, one for each
  protocol, in the order of the file.
\<close>

theorem empty_list_is_all_protocols:
  "NetProtoCounters h [] = NetProtoCounters h netProtocols \<and>
   (ReadLines h (HostProc h [''net/snmp'']) = Some (pairLines pairs) \<longrightarrow>
    list_all wellFormedPair pairs \<longrightarrow>
    distinct (map (pairProto h) pairs) \<longrightarrow> set (map (pairProto h) pairs) = set netProtocols \<longrightarrow>
      (\<exists>stats. NetProtoCounters h [] = Inr stats \<and>
               map Protocol stats = map (pairProto h) pairs \<and>
               length stats = 6 \<and>
               (\<forall>p \<in> set netProtocols. length (filter (\<lambda>s. Protocol s = p) stats) = 1)))"
proof (intro conjI impI)
  show "NetProtoCounters h [] = NetProtoCounters h netProtocols"
    by (simp add: NetProtoCounters_def netProtocols_def)
next
  assume lines: "ReadLines h (HostProc h [''net/snmp'']) = Some (pairLines pairs)"
    and wf: "list_all wellFormedPair pairs"
    and dist: "distinct (map (pairProto h) pairs)"
    and all: "set (map (pairProto h) pairs) = set netProtocols"
  from all have "\<forall>p \<in> set pairs. pairProto h p \<in> set netProtocols" by auto
  from protoLoop_wellFormed [OF wf this, of "[]"] obtain stats where
    stats: "protoLoop h netProtocols (pairLines pairs) [] = Inr stats"
      "map Protocol stats = map (pairProto h) pairs"
    by auto
  from lines stats(1) have res: "NetProtoCounters h [] = Inr stats"
    by (simp add: NetProtoCounters_def)
  have "distinct netProtocols" by (simp add: netProtocols_def)
  then have "card (set netProtocols) = 6" by (simp add: distinct_card netProtocols_def)
  with all dist have "length (map (pairProto h) pairs) = 6"
    by (metis distinct_card)
  with stats(2) have len: "length stats = 6" by (metis length_map)
  have one: "\<forall>p \<in> set netProtocols. length (filter (\<lambda>s. Protocol s = p) stats) = 1"
  proof
    fix p assume "p \<in> set netProtocols"
    with all stats(2) have "p \<in> Protocol ` set stats" by (metis set_map)
    moreover from dist stats(2) have "distinct (map Protocol stats)" by simp
    ultimately show "length (filter (\<lambda>s. Protocol s = p) stats) = 1"
      by (rule one_entry_for_key [rotated])
  qed
  from res stats(2) len one
  show "\<exists>stats. NetProtoCounters h [] = Inr stats \<and>
               map Protocol stats = map (pairProto h) pairs \<and>
               length stats = 6 \<and>
               (\<forall>p \<in> set netProtocols. length (filter (\<lambda>s. Protocol s = p) stats) = 1)"
    by blast
qed

text \<open>The file of \<open>hostSnmp\<close>, read with the empty list.\<close>

theorem empty_list_is_all_protocols_witness:
  "list_all wellFormedPair
     [(''Ip: Forwarding DefaultTTL'', ''Ip: 1 64''), (''Icmp: InMsgs InErrors'', ''Icmp: 10 0''),
      (''IcmpMsg: InType3 OutType3'', ''IcmpMsg: 5 7''), (''Tcp: RtoAlgorithm MaxConn'', ''Tcp: 1 -1''),
      (''Udp: InDatagrams NoPorts'', ''Udp: 100 2''),
      (''UdpLite: InDatagrams NoPorts'', ''UdpLite: 0 0'')] \<and>
   NetProtoCounters hostSnmp [] = NetProtoCounters hostSnmp netProtocols \<and>
   NetProtoCounters hostSnmp [] =
     Inr [\<lparr>Protocol = ''ip'', Stats = [(''Forwarding'', 1), (''DefaultTTL'', 64)]\<rparr>,
          \<lparr>Protocol = ''icmp'', Stats = [(''InMsgs'', 10), (''InErrors'', 0)]\<rparr>,
          \<lparr>Protocol = ''icmpmsg'', Stats = [(''InType3'', 5), (''OutType3'', 7)]\<rparr>,
          \<lparr>Protocol = ''tcp'', Stats = [(''RtoAlgorithm'', 1), (''MaxConn'', - 1)]\<rparr>,
          \<lparr>Protocol = ''udp'', Stats = [(''InDatagrams'', 100), (''NoPorts'', 2)]\<rparr>,
          \<lparr>Protocol = ''udplite'', Stats = [(''InDatagrams'', 0), (''NoPorts'', 0)]\<rparr>] \<and>
   (\<exists>stats. NetProtoCounters hostSnmp [] = Inr stats \<and> length stats = 6 \<and>
            (\<forall>p \<in> set netProtocols. length (filter (\<lambda>s. Protocol s = p) stats) = 1))"
proof -
  let ?pairs = "[(''Ip: Forwarding DefaultTTL'', ''Ip: 1 64''), (''Icmp: InMsgs InErrors'', ''Icmp: 10 0''),
      (''IcmpMsg: InType3 OutType3'', ''IcmpMsg: 5 7''), (''Tcp: RtoAlgorithm MaxConn'', ''Tcp: 1 -1''),
      (''Udp: InDatagrams NoPorts'', ''Udp: 100 2''),
      (''UdpLite: InDatagrams NoPorts'', ''UdpLite: 0 0'')]"
  note inst = empty_list_is_all_protocols [of hostSnmp ?pairs]
  have lines: "ReadLines hostSnmp (HostProc hostSnmp [''net/snmp'']) = Some (pairLines ?pairs)"
    by (simp add: hostSnmp_def procfs_def pairLines_def)
  have wf: "list_all wellFormedPair ?pairs"
    by (simp add: wellFormedPair_def strconv_defs)
  have protos: "map (pairProto hostSnmp) ?pairs = netProtocols"
    by (simp add: pairProto_def ToLower_def lowerByte_def netProtocols_def)
  then have dist: "distinct (map (pairProto hostSnmp) ?pairs)"
    and all: "set (map (pairProto hostSnmp) ?pairs) = set netProtocols"
    by (simp_all add: netProtocols_def)
  from inst [THEN conjunct2, rule_format, OF lines wf dist all]
  have "\<exists>stats. NetProtoCounters hostSnmp [] = Inr stats \<and> length stats = 6 \<and>
            (\<forall>p \<in> set netProtocols. length (filter (\<lambda>s. Protocol s = p) stats) = 1)"
    by blast
  with wf inst [THEN conjunct1] NetProtoCounters_hostSnmp_all show ?thesis
    by blast
qed


end
